theory Spec2Isabelle
  imports Complex_Main "HOL-Library.Word"
begin

section \<open>JavaScript strings\<close>

text \<open>
  A JavaScript string is a sequence of UTF-16 code units; \<^verbatim>\<open>length\<close>, \<^verbatim>\<open>trim\<close>,
  \<^verbatim>\<open>includes\<close>, \<^verbatim>\<open>split\<close> and regular expressions without the \<^verbatim>\<open>u\<close> flag work
  on code units, regular expressions with the \<^verbatim>\<open>u\<close> flag on code points.
\<close>

type_synonym code_unit = "16 word"
type_synonym jsstring = "code_unit list"

text \<open>An ASCII literal of the source as a JavaScript string.\<close>

definition js :: "string \<Rightarrow> jsstring" where
  "js s = map (\<lambda>c. of_nat (of_char c)) s"

text \<open>
  The code units that \<^verbatim>\<open>trim\<close> strips and \<^verbatim>\<open>\s\<close> matches: ECMAScript WhiteSpace
  (TAB, VT, FF, SP, NBSP, ZWNBSP and the space separators) and LineTerminator
  (LF, CR, LS, PS).
\<close>

definition is_space :: "code_unit \<Rightarrow> bool" where
  "is_space u \<longleftrightarrow>
     u = 0x09 \<or> u = 0x0A \<or> u = 0x0B \<or> u = 0x0C \<or> u = 0x0D \<or> u = 0x20 \<or> u = 0xA0 \<or>
     u = 0x1680 \<or> (0x2000 \<le> u \<and> u \<le> 0x200A) \<or> u = 0x2028 \<or> u = 0x2029 \<or>
     u = 0x202F \<or> u = 0x205F \<or> u = 0x3000 \<or> u = 0xFEFF"

definition trim :: "jsstring \<Rightarrow> jsstring" where
  "trim s = rev (dropWhile is_space (rev (dropWhile is_space s)))"

fun starts_with :: "jsstring \<Rightarrow> jsstring \<Rightarrow> bool" where
  "starts_with s [] = True"
| "starts_with [] (p # ps) = False"
| "starts_with (c # cs) (p # ps) = (c = p \<and> starts_with cs ps)"

text \<open>\<^verbatim>\<open>s.includes(sub)\<close>: \<open>sub\<close> occurs in \<open>s\<close> as a contiguous run of code units.\<close>

fun includes_js :: "jsstring \<Rightarrow> jsstring \<Rightarrow> bool" where
  "includes_js [] sub = (sub = [])"
| "includes_js (c # cs) sub = (starts_with (c # cs) sub \<or> includes_js cs sub)"

text \<open>
  \<^verbatim>\<open>s.split(/\s+/)\<close>: the pieces between the maximal runs of white space. A run at
  the start or at the end of \<open>s\<close> leaves an empty piece there, and the empty string
  splits into one empty piece. \<open>cur\<close> holds the piece being read, reversed.
\<close>

function split_ws_from :: "jsstring \<Rightarrow> jsstring \<Rightarrow> jsstring list" where
  "split_ws_from cur [] = [rev cur]"
| "split_ws_from cur (c # cs) =
     (if is_space c then rev cur # split_ws_from [] (dropWhile is_space cs)
      else split_ws_from (c # cur) cs)"
  by pat_completeness auto
termination
  by (relation "measure (\<lambda>(cur, s). length s)")
     (auto simp: length_dropWhile_le less_Suc_eq_le)

definition split_ws :: "jsstring \<Rightarrow> jsstring list" where
  "split_ws s = split_ws_from [] s"

text \<open>
  The code points of a string, as a \<^verbatim>\<open>u\<close>-flag regular expression reads it: a lead
  surrogate followed by a trail surrogate is one code point, any other code unit is
  a code point of its own.
\<close>

definition is_lead :: "code_unit \<Rightarrow> bool" where
  "is_lead u \<longleftrightarrow> 0xD800 \<le> u \<and> u \<le> 0xDBFF"

definition is_trail :: "code_unit \<Rightarrow> bool" where
  "is_trail u \<longleftrightarrow> 0xDC00 \<le> u \<and> u \<le> 0xDFFF"

fun code_points :: "jsstring \<Rightarrow> nat list" where
  "code_points [] = []"
| "code_points [u] = [unat u]"
| "code_points (u # v # rest) =
     (if is_lead u \<and> is_trail v
      then (0x10000 + (unat u - 0xD800) * 0x400 + (unat v - 0xDC00)) # code_points rest
      else unat u # code_points (v # rest))"


section \<open>Regular expressions\<close>

text \<open>
  The patterns of the source use alternation, concatenation, repetition and
  character classes only (no back-references, no look-around), so
  \<^verbatim>\<open>RegExp.prototype.test\<close> decides membership in a regular language. A pattern is
  a term of \<open>'a regex\<close> over code units or code points, and matching is by
  derivatives: \<open>step c r\<close> is what is left of \<open>r\<close> after reading \<open>c\<close>.
\<close>

datatype 'a regex =
    Fail
  | Empty
  | Class "'a \<Rightarrow> bool"
  | Alt "'a regex" "'a regex"
  | Cat "'a regex" "'a regex"
  | Star "'a regex"

fun accepts_empty :: "'a regex \<Rightarrow> bool" where
  "accepts_empty Fail = False"
| "accepts_empty Empty = True"
| "accepts_empty (Class p) = False"
| "accepts_empty (Alt r s) = (accepts_empty r \<or> accepts_empty s)"
| "accepts_empty (Cat r s) = (accepts_empty r \<and> accepts_empty s)"
| "accepts_empty (Star r) = True"

text \<open>Alternation and concatenation that drop a branch which cannot match.\<close>

fun alt :: "'a regex \<Rightarrow> 'a regex \<Rightarrow> 'a regex" where
  "alt Fail s = s"
| "alt r Fail = r"
| "alt r s = Alt r s"

fun cat :: "'a regex \<Rightarrow> 'a regex \<Rightarrow> 'a regex" where
  "cat Fail s = Fail"
| "cat r Fail = Fail"
| "cat Empty s = s"
| "cat r s = Cat r s"

fun step :: "'a \<Rightarrow> 'a regex \<Rightarrow> 'a regex" where
  "step c Fail = Fail"
| "step c Empty = Fail"
| "step c (Class p) = (if p c then Empty else Fail)"
| "step c (Alt r s) = alt (step c r) (step c s)"
| "step c (Cat r s) =
     (if accepts_empty r then alt (cat (step c r) s) (step c s) else cat (step c r) s)"
| "step c (Star r) = cat (step c r) (Star r)"

fun steps :: "'a regex \<Rightarrow> 'a list \<Rightarrow> 'a regex" where
  "steps r [] = r"
| "steps r (c # cs) = steps (step c r) cs"

definition full_match :: "'a regex \<Rightarrow> 'a list \<Rightarrow> bool" where
  "full_match r s = accepts_empty (steps r s)"

subsection \<open>Pattern syntax\<close>

definition anything :: "'a regex" where
  "anything = Star (Class (\<lambda>_. True))"

definition opt :: "'a regex \<Rightarrow> 'a regex" where
  "opt r = Alt r Empty"

definition one_or_more :: "'a regex \<Rightarrow> 'a regex" where
  "one_or_more r = Cat r (Star r)"

fun cats :: "'a regex list \<Rightarrow> 'a regex" where
  "cats [] = Empty"
| "cats [r] = r"
| "cats (r # rs) = Cat r (cats rs)"

fun alts :: "'a regex list \<Rightarrow> 'a regex" where
  "alts [] = Fail"
| "alts [r] = r"
| "alts (r # rs) = Alt r (alts rs)"

text \<open>\<open>r{n}\<close> and \<open>r{0,n}\<close>.\<close>

fun exactly :: "nat \<Rightarrow> 'a regex \<Rightarrow> 'a regex" where
  "exactly 0 r = Empty"
| "exactly (Suc n) r = Cat r (exactly n r)"

fun at_most :: "nat \<Rightarrow> 'a regex \<Rightarrow> 'a regex" where
  "at_most 0 r = Empty"
| "at_most (Suc n) r = opt (Cat r (at_most n r))"

text \<open>
  Case: under the \<^verbatim>\<open>i\<close> flag without \<^verbatim>\<open>u\<close> two code units match when their
  canonical forms (the upper-case mapping) agree, and a code unit from 128 on is
  never mapped below 128. Every literal character of the source's patterns is
  ASCII, so a pattern character matches exactly the ASCII code units with its
  upper-case form.
\<close>

definition ascii_upper :: "code_unit \<Rightarrow> code_unit" where
  "ascii_upper u = (if 0x61 \<le> u \<and> u \<le> 0x7A then u - 0x20 else u)"

definition chr_i :: "char \<Rightarrow> code_unit regex" where
  "chr_i c = Class (\<lambda>u. ascii_upper u = ascii_upper (of_nat (of_char c)))"

definition chr_s :: "char \<Rightarrow> code_unit regex" where
  "chr_s c = Class (\<lambda>u. u = of_nat (of_char c))"

text \<open>A literal under the \<^verbatim>\<open>i\<close> flag, and an alternative of such literals.\<close>

definition lit_i :: "string \<Rightarrow> code_unit regex" where
  "lit_i s = cats (map chr_i s)"

definition words_i :: "string list \<Rightarrow> code_unit regex" where
  "words_i ws = alts (map lit_i ws)"

text \<open>The classes \<^verbatim>\<open>[...]\<close> of listed characters, \<^verbatim>\<open>\s\<close>, \<^verbatim>\<open>\S\<close>, \<^verbatim>\<open>\d\<close>, \<^verbatim>\<open>\w\<close>, \<^verbatim>\<open>.\<close>.\<close>

definition one_of :: "string \<Rightarrow> code_unit regex" where
  "one_of s = Class (\<lambda>u. u \<in> set (js s))"

definition ws :: "code_unit regex" where
  "ws = Class is_space"

definition non_ws :: "code_unit regex" where
  "non_ws = Class (\<lambda>u. \<not> is_space u)"

definition is_digit :: "code_unit \<Rightarrow> bool" where
  "is_digit u \<longleftrightarrow> 0x30 \<le> u \<and> u \<le> 0x39"

definition is_lower :: "code_unit \<Rightarrow> bool" where
  "is_lower u \<longleftrightarrow> 0x61 \<le> u \<and> u \<le> 0x7A"

definition is_upper :: "code_unit \<Rightarrow> bool" where
  "is_upper u \<longleftrightarrow> 0x41 \<le> u \<and> u \<le> 0x5A"

definition digit :: "code_unit regex" where
  "digit = Class is_digit"

definition word_char :: "code_unit regex" where
  "word_char = Class (\<lambda>u. is_lower u \<or> is_upper u \<or> is_digit u \<or> u = 0x5F)"

definition dot :: "code_unit regex" where
  "dot = Class (\<lambda>u. \<not> (u = 0x0A \<or> u = 0x0D \<or> u = 0x2028 \<or> u = 0x2029))"

subsection \<open>Anchors and the two kinds of pattern\<close>

text \<open>
  No pattern of the source has the \<^verbatim>\<open>m\<close>, \<^verbatim>\<open>g\<close> or \<^verbatim>\<open>y\<close> flag: \<^verbatim>\<open>^\<close> is the start
  of the input, \<^verbatim>\<open>$\<close> its end, and \<^verbatim>\<open>test\<close> keeps no state. A pattern \<^verbatim>\<open>^r$\<close> is \<open>r\<close>
  matched against the whole input; \<^verbatim>\<open>^r\<close> lets anything follow; a pattern with no
  anchor lets anything come before and after.
\<close>

definition from_start :: "'a regex \<Rightarrow> 'a regex" where
  "from_start r = Cat r anything"

definition somewhere :: "'a regex \<Rightarrow> 'a regex" where
  "somewhere r = Cat anything (Cat r anything)"

datatype js_regexp =
    Units "code_unit regex"
  | Points "nat regex"

fun test :: "js_regexp \<Rightarrow> jsstring \<Rightarrow> bool" where
  "test (Units r) s = full_match r s"
| "test (Points r) s = full_match r (code_points s)"


section \<open>The Unicode Emoji property\<close>

text \<open>
  Modelled from the spec: the table behind \<^verbatim>\<open>\p{Emoji}\<close> belongs to the JavaScript
  runtime, not to the repository. \<open>Emoji_ranges\<close> lists the code points with the
  Emoji property of Unicode 15.0 (emoji-data.txt) as inclusive ranges; it starts
  with \<^verbatim>\<open>#\<close>, \<^verbatim>\<open>*\<close> and the ASCII digits, which have had the property in every
  version of the standard that defines it.
\<close>

definition Emoji_ranges :: "(nat \<times> nat) list" where
  "Emoji_ranges =
    [(0x23, 0x23), (0x2A, 0x2A), (0x30, 0x39), (0xA9, 0xA9), (0xAE, 0xAE), (0x203C, 0x203C),
     (0x2049, 0x2049), (0x2122, 0x2122), (0x2139, 0x2139), (0x2194, 0x2199),
     (0x21A9, 0x21AA), (0x231A, 0x231B), (0x2328, 0x2328), (0x23CF, 0x23CF),
     (0x23E9, 0x23F3), (0x23F8, 0x23FA), (0x24C2, 0x24C2), (0x25AA, 0x25AB),
     (0x25B6, 0x25B6), (0x25C0, 0x25C0), (0x25FB, 0x25FE), (0x2600, 0x2604),
     (0x260E, 0x260E), (0x2611, 0x2611), (0x2614, 0x2615), (0x2618, 0x2618),
     (0x261D, 0x261D), (0x2620, 0x2620), (0x2622, 0x2623), (0x2626, 0x2626),
     (0x262A, 0x262A), (0x262E, 0x262F), (0x2638, 0x263A), (0x2640, 0x2640),
     (0x2642, 0x2642), (0x2648, 0x2653), (0x265F, 0x2660), (0x2663, 0x2663),
     (0x2665, 0x2666), (0x2668, 0x2668), (0x267B, 0x267B), (0x267E, 0x267F),
     (0x2692, 0x2697), (0x2699, 0x2699), (0x269B, 0x269C), (0x26A0, 0x26A1),
     (0x26A7, 0x26A7), (0x26AA, 0x26AB), (0x26B0, 0x26B1), (0x26BD, 0x26BE),
     (0x26C4, 0x26C5), (0x26C8, 0x26C8), (0x26CE, 0x26CF), (0x26D1, 0x26D1),
     (0x26D3, 0x26D4), (0x26E9, 0x26EA), (0x26F0, 0x26F5), (0x26F7, 0x26FA),
     (0x26FD, 0x26FD), (0x2702, 0x2702), (0x2705, 0x2705), (0x2708, 0x270D),
     (0x270F, 0x270F), (0x2712, 0x2712), (0x2714, 0x2714), (0x2716, 0x2716),
     (0x271D, 0x271D), (0x2721, 0x2721), (0x2728, 0x2728), (0x2733, 0x2734),
     (0x2744, 0x2744), (0x2747, 0x2747), (0x274C, 0x274C), (0x274E, 0x274E),
     (0x2753, 0x2755), (0x2757, 0x2757), (0x2763, 0x2764), (0x2795, 0x2797),
     (0x27A1, 0x27A1), (0x27B0, 0x27B0), (0x27BF, 0x27BF), (0x2934, 0x2935),
     (0x2B05, 0x2B07), (0x2B1B, 0x2B1C), (0x2B50, 0x2B50), (0x2B55, 0x2B55),
     (0x3030, 0x3030), (0x303D, 0x303D), (0x3297, 0x3297), (0x3299, 0x3299),
     (0x1F004, 0x1F004), (0x1F0CF, 0x1F0CF), (0x1F170, 0x1F171), (0x1F17E, 0x1F17F),
     (0x1F18E, 0x1F18E), (0x1F191, 0x1F19A), (0x1F1E6, 0x1F1FF), (0x1F201, 0x1F202),
     (0x1F21A, 0x1F21A), (0x1F22F, 0x1F22F), (0x1F232, 0x1F23A), (0x1F250, 0x1F251),
     (0x1F300, 0x1F321), (0x1F324, 0x1F393), (0x1F396, 0x1F397), (0x1F399, 0x1F39B),
     (0x1F39E, 0x1F3F0), (0x1F3F3, 0x1F3F5), (0x1F3F7, 0x1F4FD), (0x1F4FF, 0x1F53D),
     (0x1F549, 0x1F54E), (0x1F550, 0x1F567), (0x1F56F, 0x1F570), (0x1F573, 0x1F57A),
     (0x1F587, 0x1F587), (0x1F58A, 0x1F58D), (0x1F590, 0x1F590), (0x1F595, 0x1F596),
     (0x1F5A4, 0x1F5A5), (0x1F5A8, 0x1F5A8), (0x1F5B1, 0x1F5B2), (0x1F5BC, 0x1F5BC),
     (0x1F5C2, 0x1F5C4), (0x1F5D1, 0x1F5D3), (0x1F5DC, 0x1F5DE), (0x1F5E1, 0x1F5E1),
     (0x1F5E3, 0x1F5E3), (0x1F5E8, 0x1F5E8), (0x1F5EF, 0x1F5EF), (0x1F5F3, 0x1F5F3),
     (0x1F5FA, 0x1F64F), (0x1F680, 0x1F6C5), (0x1F6CB, 0x1F6D2), (0x1F6D5, 0x1F6D7),
     (0x1F6DC, 0x1F6E5), (0x1F6E9, 0x1F6E9), (0x1F6EB, 0x1F6EC), (0x1F6F0, 0x1F6F0),
     (0x1F6F3, 0x1F6FC), (0x1F7E0, 0x1F7EB), (0x1F7F0, 0x1F7F0), (0x1F90C, 0x1F93A),
     (0x1F93C, 0x1F945), (0x1F947, 0x1F9FF), (0x1FA70, 0x1FA7C), (0x1FA80, 0x1FA88),
     (0x1FA90, 0x1FABD), (0x1FABF, 0x1FAC5), (0x1FACE, 0x1FADB), (0x1FAE0, 0x1FAE8),
     (0x1FAF0, 0x1FAF8)]"

definition is_Emoji :: "nat \<Rightarrow> bool" where
  "is_Emoji cp = list_ex (\<lambda>(lo, hi). lo \<le> cp \<and> cp \<le> hi) Emoji_ranges"

text \<open>\<^verbatim>\<open>\s\<close> on code points: the white space code units, all below 0x10000.\<close>

definition is_space_cp :: "nat \<Rightarrow> bool" where
  "is_space_cp cp \<longleftrightarrow> cp < 0x10000 \<and> is_space (of_nat cp)"


section \<open>The attention gate\<close>

text \<open>The tail \<^verbatim>\<open>\s*[.!?]*\<close> shared by several patterns.\<close>

definition tail_punct :: "code_unit regex" where
  "tail_punct = Cat (Star ws) (Star (one_of ''.!?''))"

definition apostrophe :: string where
  "apostrophe = [CHR 0x27]"

definition noise_greeting :: js_regexp where
  "noise_greeting = Units (Cat
     (words_i [''hi'', ''hey'', ''hello'', ''yo'', ''sup'', ''ok'', ''okay'', ''sure'', ''thanks'',
        ''thank you'', ''thx'', ''ty'', ''yep'', ''yup'', ''nope'', ''no'', ''yes'',
        ''yeah'', ''cool'', ''nice'', ''great'', ''got it'', ''sounds good'', ''perfect'',
        ''alright'', ''fine'', ''noted'', ''ack'', ''kk'', ''k''])
     tail_punct)"

definition noise_affirmation :: js_regexp where
  "noise_affirmation = Units (cats
     [words_i [''ok'', ''okay'', ''yes'', ''yeah'', ''yep'', ''sure'', ''no'', ''nope'',
        ''alright'', ''right'', ''fine'', ''cool'', ''nice'', ''great''],
      one_or_more ws,
      words_i [''great'', ''good'', ''sure'', ''thanks'', ''please'', ''ok'', ''fine'', ''cool'',
        ''yeah'', ''perfect'', ''noted'', ''absolutely'', ''definitely'', ''exactly''],
      tail_punct])"

definition noise_deictic :: js_regexp where
  "noise_deictic = Units (cats
     [opt (cats [lit_i ''ok'', opt (one_of '',.''), one_or_more ws]),
      opt (cats [lit_i ''i'',
                 opt (words_i [apostrophe @ ''ll'', apostrophe @ ''m'', apostrophe @ ''d'',
                               apostrophe @ ''ve'']),
                 one_or_more ws]),
      opt (cats [lit_i ''just'', one_or_more ws]),
      words_i [''need'', ''want'', ''got'', ''have'', ''let'', ''let'' @ apostrophe @ ''s'', ''let me'', ''give me'',
        ''send'', ''do'', ''did'', ''try'', ''check'', ''see'', ''look at'', ''test'',
        ''take'', ''get'', ''go'', ''use''],
      one_or_more ws,
      words_i [''it'', ''that'', ''this'', ''those'', ''these'', ''them'', ''some'', ''one'',
        ''the'', ''a'', ''an'', ''me'', ''him'', ''her'', ''us''],
      Star ws,
      opt (words_i [''out'', ''up'', ''now'', ''then'', ''too'', ''again'', ''later'', ''first'',
        ''here'', ''there'', ''please'']),
      tail_punct])"

definition noise_short_ack :: js_regexp where
  "noise_short_ack = Units (cats
     [words_i [''ok'', ''okay'', ''yes'', ''yeah'', ''yep'', ''sure'', ''no'', ''nope'', ''right'',
        ''alright'', ''fine'', ''cool'', ''nice'', ''great'', ''perfect''],
      opt (one_of '',.''),
      one_or_more ws,
      at_most 20 dot])"

definition noise_filler :: js_regexp where
  "noise_filler = Units (Cat
     (alts ([Cat (lit_i ''hm'') (one_or_more (chr_i CHR ''m''))] @
            map lit_i [''huh'', ''haha'', ''ha'', ''lol'', ''lmao'', ''rofl'', ''nah'', ''meh'', ''idk'',
        ''brb'', ''ttyl'', ''omg'', ''wow'', ''whoa'', ''welp'', ''oops'', ''ooh'',
        ''aah'', ''ugh'', ''bleh'', ''pfft'', ''smh'', ''ikr'', ''tbh'', ''imo'', ''fwiw'',
        ''np'', ''nvm'', ''nm'', ''wut'', ''wat'', ''wha'', ''heh'', ''tsk'', ''sigh'',
        ''yay''] @
            [Cat (lit_i ''wo'') (one_or_more (chr_i CHR ''o''))] @
            map lit_i [''boo'', ''dang'', ''darn'', ''geez'', ''gosh'', ''sheesh'', ''oof'']))
     tail_punct)"

definition noise_near_empty :: js_regexp where
  "noise_near_empty = Units (at_most 3 non_ws)"

definition noise_pure_emoji :: js_regexp where
  "noise_pure_emoji = Points (one_or_more (Class (\<lambda>cp. is_Emoji cp \<or> is_space_cp cp)))"

definition tag_name :: "code_unit regex" where
  "tag_name = one_or_more (Class (\<lambda>u. is_lower u \<or> is_upper u \<or> u = 0x2D))"

definition noise_markup :: js_regexp where
  "noise_markup = Units (cats
     [chr_s CHR ''<'', tag_name, chr_s CHR ''>'', anything,
      chr_s CHR ''<'', chr_s CHR ''/'', tag_name, chr_s CHR ''>''])"

definition noise_new_session :: js_regexp where
  "noise_new_session = Units (from_start (lit_i ''A new session was started via''))"

definition noise_heartbeat :: js_regexp where
  "noise_heartbeat = Units (somewhere (lit_i ''Read HEARTBEAT.md if it exists''))"

definition noise_compaction :: js_regexp where
  "noise_compaction = Units (from_start (lit_i ''Pre-compaction memory flush''))"

definition noise_system :: js_regexp where
  "noise_system = Units (from_start (cats [lit_i ''System:'', Star ws, chr_s CHR ''['']))"

definition noise_cron :: js_regexp where
  "noise_cron = Units (from_start (Cat
     (lit_i ''[cron:'')
     (one_or_more (Class (\<lambda>u. is_digit u \<or> (0x61 \<le> u \<and> u \<le> 0x66) \<or>
                               (0x41 \<le> u \<and> u \<le> 0x46) \<or> u = 0x2D)))))"

definition noise_gateway_restart :: js_regexp where
  "noise_gateway_restart =
     Units (from_start (cats [lit_i ''GatewayRestart:'', Star ws, chr_s CHR ''{'']))"

definition noise_background_task :: js_regexp where
  "noise_background_task = Units (from_start (cats
     [chr_s CHR ''['', exactly 3 word_char, one_or_more ws,
      exactly 4 digit, chr_s CHR ''-'', exactly 2 digit, chr_s CHR ''-'', exactly 2 digit,
      ws, Star dot, chr_s CHR '']'', Star ws, lit_i ''A background task'']))"

definition NOISE_PATTERNS :: "js_regexp list" where
  "NOISE_PATTERNS =
     [noise_greeting, noise_affirmation, noise_deictic, noise_short_ack, noise_filler,
      noise_near_empty, noise_pure_emoji, noise_markup, noise_new_session,
      noise_heartbeat, noise_compaction, noise_system, noise_cron,
      noise_gateway_restart, noise_background_task]"

definition MAX_CAPTURE_CHARS :: nat where
  "MAX_CAPTURE_CHARS = 2000"

definition MIN_CAPTURE_CHARS :: nat where
  "MIN_CAPTURE_CHARS = 30"

definition MIN_WORD_COUNT :: nat where
  "MIN_WORD_COUNT = 5"

text \<open>\<^verbatim>\<open>(trimmed.match(/[\u{1F300}-\u{1F9FF}]/gu) || []).length\<close>\<close>

definition emojiCount :: "jsstring \<Rightarrow> nat" where
  "emojiCount trimmed =
     length (filter (\<lambda>cp. 0x1F300 \<le> cp \<and> cp \<le> 0x1F9FF) (code_points trimmed))"

definition passesAttentionGate :: "jsstring \<Rightarrow> bool" where
  "passesAttentionGate text =
     (let trimmed = trim text in
      if length trimmed < MIN_CAPTURE_CHARS \<or> length trimmed > MAX_CAPTURE_CHARS then False
      else let wordCount = length (split_ws trimmed) in
      if wordCount < MIN_WORD_COUNT then False
      else if includes_js trimmed (js ''<relevant-memories>'') \<or>
              includes_js trimmed (js ''<core-memory-refresh>'') then False
      else if list_ex (\<lambda>r. test r trimmed) NOISE_PATTERNS then False
      else if emojiCount trimmed > 3 then False
      else True)"

definition MAX_ASSISTANT_CAPTURE_CHARS :: nat where
  "MAX_ASSISTANT_CAPTURE_CHARS = 1000"

definition MIN_ASSISTANT_WORD_COUNT :: nat where
  "MIN_ASSISTANT_WORD_COUNT = 10"

text \<open>
  The loop over \<^verbatim>\<open>/```[\s\S]*?```/g\<close>: each match runs from the first fence not yet
  consumed to the nearest fence after it (the quantifier is lazy), and the next
  search starts behind the match. \<open>skip_to_fence s\<close> finds the first fence in \<open>s\<close>
  and returns the number of code units before it and the rest behind it.
\<close>

definition fence :: jsstring where
  "fence = [0x60, 0x60, 0x60]"

fun skip_to_fence :: "jsstring \<Rightarrow> (nat \<times> jsstring) option" where
  "skip_to_fence [] = None"
| "skip_to_fence (c # cs) =
     (if starts_with (c # cs) fence then Some (0, drop 3 (c # cs))
      else map_option (\<lambda>(n, rest). (Suc n, rest)) (skip_to_fence cs))"

lemma skip_to_fence_shorter:
  "skip_to_fence s = Some (n, rest) \<Longrightarrow> length rest < length s"
proof (induction s arbitrary: n rest)
  case Nil
  then show ?case by simp
next
  case (Cons c cs)
  show ?case
  proof (cases "starts_with (c # cs) fence")
    case True
    with Cons.prems show ?thesis by auto
  next
    case False
    with Cons.prems obtain m where "skip_to_fence cs = Some (m, rest)"
      by (auto split: option.splits)
    from Cons.IH [OF this] show ?thesis by simp
  qed
qed

function codeChars :: "jsstring \<Rightarrow> nat" where
  "codeChars s =
     (case skip_to_fence s of
        None \<Rightarrow> 0
      | Some (before, body) \<Rightarrow>
          (case skip_to_fence body of
             None \<Rightarrow> 0
           | Some (inside, rest) \<Rightarrow> 3 + inside + 3 + codeChars rest))"
  by pat_completeness auto
termination
proof (relation "measure length")
  show "wf (measure length)" by simp
next
  fix s :: jsstring and x2 before body y2 inside rest
  assume "skip_to_fence s = Some x2" "(before, body) = x2"
    "skip_to_fence body = Some y2" "(inside, rest) = y2"
  then have "length body < length s" "length rest < length body"
    using skip_to_fence_shorter by metis+
  then show "(rest, s) \<in> measure length" by simp
qed

declare codeChars.simps [simp del]

definition passesAssistantAttentionGate :: "jsstring \<Rightarrow> bool" where
  "passesAssistantAttentionGate text =
     (let trimmed = trim text in
      if length trimmed < MIN_CAPTURE_CHARS \<or> length trimmed > MAX_ASSISTANT_CAPTURE_CHARS
      then False
      else let wordCount = length (split_ws trimmed) in
      if wordCount < MIN_ASSISTANT_WORD_COUNT then False
      else if 2 * codeChars trimmed > length trimmed then False
      else if includes_js trimmed (js ''<tool_result>'') \<or>
              includes_js trimmed (js ''<tool_use>'') \<or>
              includes_js trimmed (js ''<function_call>'') then False
      else if includes_js trimmed (js ''<relevant-memories>'') \<or>
              includes_js trimmed (js ''<core-memory-refresh>'') then False
      else if list_ex (\<lambda>r. test r trimmed) NOISE_PATTERNS then False
      else if emojiCount trimmed > 3 then False
      else True)"


section \<open>The memory store and its client\<close>

text \<open>
  The client \<^verbatim>\<open>neo4j-client.ts\<close> is not among the sources; its tests are. The
  store, the queries and the client operations below are modelled from the
  specification, with the test suite deciding what the specification leaves open.
\<close>

subsection \<open>Data model\<close>

datatype category = Fact | Other | Core

datatype level = Debug | Info | Warn | Err

datatype error = InvalidIdentifier string | StoreError string

fun message :: "error \<Rightarrow> string" where
  "message (InvalidIdentifier m) = m"
| "message (StoreError m) = m"

record memory =
  mem_id :: string
  mem_text :: string
  embedding :: "real list"
  importance :: real
  category :: category

record entity =
  ent_id :: string
  mentionCount :: nat

text \<open>
  Modelled from the spec: the graph store behind the client (section 3). Nodes are
  memories and entities, \<open>mentions\<close> holds the MENTIONS edges as pairs of a memory id
  and an entity id. The vector index is opaque: \<open>score\<close> is the similarity it
  assigns to two embeddings, and \<open>index_ready\<close> says whether it answers at all.
\<close>

record graph =
  memories :: "memory list"
  entities :: "entity list"
  mentions :: "(string \<times> string) list"
  index_ready :: bool
  score :: "real list \<Rightarrow> real list \<Rightarrow> real"

text \<open>
  Modelled from the spec: the state of a client, namely the store it talks to, the
  number of queries it has sent there, and what it has logged.
\<close>

record client =
  store :: graph
  queries :: nat
  logged :: "(level \<times> string) list"

definition memory_ids :: "graph \<Rightarrow> string list" where
  "memory_ids g = map mem_id (memories g)"

subsection \<open>deleteMemory\<close>

text \<open>
  Modelled from the spec: the check for a well-formed identifier in front of
  \<^verbatim>\<open>deleteMemory\<close>. The test suite calls the shape a UUID: five groups of 8, 4, 4, 4
  and 12 hexadecimal digits, joined by hyphens.
\<close>

definition is_hex :: "char \<Rightarrow> bool" where
  "is_hex c \<longleftrightarrow> c \<in> set ''0123456789abcdefABCDEF''"

fun hex_groups :: "nat list \<Rightarrow> string \<Rightarrow> bool" where
  "hex_groups [] s = False"
| "hex_groups [n] s = (length s = n \<and> list_all is_hex s)"
| "hex_groups (n # k # ns) s =
     (length (take n s) = n \<and> list_all is_hex (take n s) \<and>
      (case drop n s of [] \<Rightarrow> False | c # rest \<Rightarrow> c = CHR ''-'' \<and> hex_groups (k # ns) rest))"

definition is_uuid :: "string \<Rightarrow> bool" where
  "is_uuid s = hex_groups [8, 4, 4, 4, 12] s"

text \<open>
  Modelled from the spec: the one query of \<^verbatim>\<open>deleteMemory\<close> (section 4.2): for the
  memory with this id, decrement the mention count of every entity it references,
  then detach and delete it. The query answers with the number of memories deleted.
\<close>

definition delete_query :: "string \<Rightarrow> graph \<Rightarrow> nat \<times> graph" where
  "delete_query i g =
     (let found = filter (\<lambda>m. mem_id m = i) (memories g);
          referenced = map snd (filter (\<lambda>(m, e). m = i) (mentions g))
      in if found = [] then (0, g)
         else (length found,
               g\<lparr>memories := filter (\<lambda>m. mem_id m \<noteq> i) (memories g),
                 entities := map (\<lambda>e. if ent_id e \<in> set referenced
                                        then e\<lparr>mentionCount := mentionCount e - 1\<rparr> else e)
                                 (entities g),
                 mentions := filter (\<lambda>(m, e). m \<noteq> i) (mentions g)\<rparr>))"

text \<open>
  Modelled from the spec: \<^verbatim>\<open>deleteMemory(id)\<close> of the absent client (section 4.2).
  It fails with \<open>InvalidIdentifier\<close> before any query when the id is not well formed,
  and otherwise runs the one query and returns whether a record existed.
\<close>

definition deleteMemory :: "string \<Rightarrow> client \<Rightarrow> (error + bool) \<times> client" where
  "deleteMemory i c =
     (if \<not> is_uuid i then (Inl (InvalidIdentifier ''Invalid memory ID format''), c)
      else let (n, g) = delete_query i (store c)
           in (Inr (0 < n), c\<lparr>store := g, queries := queries c + 1\<rparr>))"

subsection \<open>findSimilar\<close>

record hit =
  hit_id :: string
  hit_text :: string
  hit_score :: real

text \<open>
  Modelled from the spec: the similarity search of the vector index (section 4.4):
  the memories whose score against the query vector reaches the threshold, best
  first, at most \<open>limit\<close> of them. The query fails while the index is not ready.
\<close>

definition vector_query ::
  "real list \<Rightarrow> real \<Rightarrow> nat \<Rightarrow> graph \<Rightarrow> error + (memory \<times> real) list" where
  "vector_query q threshold limit g =
     (if \<not> index_ready g then Inl (StoreError ''index not ready'')
      else Inr (take limit (rev (sort_key snd
             (filter (\<lambda>(m, s). threshold \<le> s)
                (map (\<lambda>m. (m, score g q (embedding m))) (memories g)))))))"

text \<open>
  Modelled from the spec: \<^verbatim>\<open>findSimilar(embedding, threshold, limit)\<close> of the absent
  client (sections 4.4 and 7): a failure of the index is logged at debug level and
  answered with the empty list.
\<close>

definition findSimilar :: "real list \<Rightarrow> real \<Rightarrow> nat \<Rightarrow> client \<Rightarrow> hit list \<times> client" where
  "findSimilar q threshold limit c =
     (case vector_query q threshold limit (store c) of
        Inl e \<Rightarrow> ([], c\<lparr>queries := queries c + 1,
                        logged := logged c @ [(Debug, message e)]\<rparr>)
      | Inr rows \<Rightarrow>
          (map (\<lambda>(m, s). \<lparr>hit_id = mem_id m, hit_text = mem_text m, hit_score = s\<rparr>) rows,
           c\<lparr>queries := queries c + 1\<rparr>))"

subsection \<open>mergeMemoryCluster\<close>

record merge_result =
  survivorId :: "string option"
  deletedCount :: nat

text \<open>
  Modelled from the spec: the choice of the survivor in \<^verbatim>\<open>mergeMemoryCluster\<close>
  (section 4.5): the member with the highest importance, the earlier one on a tie.
  An empty cluster has no survivor.
\<close>

fun pick_survivor :: "string list \<Rightarrow> real list \<Rightarrow> string option" where
  "pick_survivor ids importances =
     (case zip ids importances of
        [] \<Rightarrow> None
      | p # ps \<Rightarrow> Some (fst (foldl (\<lambda>best q. if snd best < snd q then q else best) p ps)))"

text \<open>
  Modelled from the spec: the three queries of the merge transaction (section 4.5
  and the test suite): which ids exist; move the MENTIONS edges of the ids to delete
  over to the survivor, keeping one edge for each entity; detach and delete the ids.
\<close>

definition verify_query :: "string list \<Rightarrow> graph \<Rightarrow> (string \<times> bool) list" where
  "verify_query ids g = map (\<lambda>i. (i, i \<in> set (memory_ids g))) ids"

definition transfer_query :: "string list \<Rightarrow> string \<Rightarrow> graph \<Rightarrow> graph" where
  "transfer_query toDelete survivor g =
     g\<lparr>mentions :=
         remdups (map (\<lambda>(m, e). (if m \<in> set toDelete then survivor else m, e)) (mentions g))\<rparr>"

definition delete_many_query :: "string list \<Rightarrow> graph \<Rightarrow> graph" where
  "delete_many_query toDelete g =
     g\<lparr>memories := filter (\<lambda>m. mem_id m \<notin> set toDelete) (memories g),
       mentions := filter (\<lambda>(m, e). m \<notin> set toDelete) (mentions g)\<rparr>"

text \<open>
  Modelled from the spec: \<^verbatim>\<open>mergeMemoryCluster(ids, importances)\<close> of the absent
  client (section 4.5). The transaction first verifies that every id exists; if one
  is missing it logs a warning and writes nothing. Otherwise it transfers the edges
  of the losers and deletes them, and reports how many ids it deleted.
\<close>

definition mergeMemoryCluster ::
  "string list \<Rightarrow> real list \<Rightarrow> client \<Rightarrow> merge_result \<times> client" where
  "mergeMemoryCluster ids importances c =
     (let survivor = pick_survivor ids importances;
          found = verify_query ids (store c);
          c1 = c\<lparr>queries := queries c + 1\<rparr>
      in if \<not> list_all snd found
         then (\<lparr>survivorId = survivor, deletedCount = 0\<rparr>,
               c1\<lparr>logged := logged c1 @
                  [(Warn, ''memory missing, skipping cluster merge'')]\<rparr>)
         else (case survivor of
                 None \<Rightarrow> (\<lparr>survivorId = None, deletedCount = 0\<rparr>, c1)
               | Some s \<Rightarrow>
                   (let toDelete = filter (\<lambda>i. i \<noteq> s) ids
                    in (\<lparr>survivorId = Some s, deletedCount = length toDelete\<rparr>,
                        c1\<lparr>store := delete_many_query toDelete
                                      (transfer_query toDelete s (store c1)),
                           queries := queries c1 + 2\<rparr>))))"

subsection \<open>retryOnTransient\<close>

text \<open>
  Modelled from the spec: the classification of a failure as transient (section
  4.7), by the keywords the test suite lists, looked for in the error message.
\<close>

fun is_prefix :: "string \<Rightarrow> string \<Rightarrow> bool" where
  "is_prefix [] s = True"
| "is_prefix (p # ps) [] = False"
| "is_prefix (p # ps) (c # cs) = (p = c \<and> is_prefix ps cs)"

fun contains :: "string \<Rightarrow> string \<Rightarrow> bool" where
  "contains [] sub = (sub = [])"
| "contains (c # cs) sub = (is_prefix sub (c # cs) \<or> contains cs sub)"

definition TRANSIENT_KEYWORDS :: "string list" where
  "TRANSIENT_KEYWORDS =
     [''TransientError'', ''DeadlockDetected'', ''ServiceUnavailable'', ''SessionExpired'']"

definition is_transient :: "error \<Rightarrow> bool" where
  "is_transient e = list_ex (contains (message e)) TRANSIENT_KEYWORDS"

definition TRANSIENT_RETRY_ATTEMPTS :: nat where
  "TRANSIENT_RETRY_ATTEMPTS = 3"

text \<open>
  Modelled from the spec: \<^verbatim>\<open>retryOnTransient(operation)\<close> of the absent client
  (section 4.7). An operation is a step on a state that fails or returns a value;
  \<open>retry k\<close> runs it and, on a transient failure, runs it again while \<open>k\<close> retries
  are left. A failure that is not transient, or the failure of the last attempt,
  is the result.
\<close>

fun retry :: "nat \<Rightarrow> ('s \<Rightarrow> (error + 'a) \<times> 's) \<Rightarrow> 's \<Rightarrow> (error + 'a) \<times> 's" where
  "retry 0 operation s = operation s"
| "retry (Suc k) operation s =
     (case operation s of
        (Inr v, s') \<Rightarrow> (Inr v, s')
      | (Inl e, s') \<Rightarrow> if is_transient e then retry k operation s' else (Inl e, s'))"

definition retryOnTransient :: "('s \<Rightarrow> (error + 'a) \<times> 's) \<Rightarrow> 's \<Rightarrow> (error + 'a) \<times> 's" where
  "retryOnTransient operation s = retry (TRANSIENT_RETRY_ATTEMPTS - 1) operation s"

text \<open>An operation that counts how often it is invoked, as a test double does.\<close>

definition counted ::
  "('s \<Rightarrow> (error + 'a) \<times> 's) \<Rightarrow> nat \<times> 's \<Rightarrow> (error + 'a) \<times> (nat \<times> 's)" where
  "counted operation = (\<lambda>(n, s). case operation s of (r, s') \<Rightarrow> (r, (Suc n, s')))"

subsection \<open>calculateParetoThreshold\<close>

record scored_memory =
  scored_id :: string
  effectiveScore :: real

text \<open>
  Modelled from the spec: \<^verbatim>\<open>calculateParetoThreshold(scores, percentile)\<close> of the
  absent client (section 4.3), with the convention the specification proposes: the
  boundary rank is \<open>\<lfloor>n \<times> (1 - percentile)\<rfloor>\<close>, counted from 1 at the top of the scores
  sorted descending, and a rank outside the list is moved to its nearest end. The
  empty list gives 0. Scores and percentile are real numbers here.
\<close>

definition calculateParetoThreshold :: "scored_memory list \<Rightarrow> real \<Rightarrow> real" where
  "calculateParetoThreshold scores percentile =
     (if scores = [] then 0
      else let sorted = rev (sort (map effectiveScore scores));
               n = length sorted;
               rank = \<lfloor>real n * (1 - percentile)\<rfloor>;
               boundary = min (n - 1) (nat (rank - 1))
           in sorted ! boundary)"


subsection \<open>findDuplicateClusters\<close>

text \<open>
  Modelled from the spec: the union-find structure of \<^verbatim>\<open>findDuplicateClusters\<close>
  (section 4.5), as a table from every id to the representative of its component.
  \<open>uf_union\<close> redirects the component of \<open>x\<close> to the representative of \<open>y\<close>.
\<close>

type_synonym union_find = "(string \<times> string) list"

definition uf_init :: "string list \<Rightarrow> union_find" where
  "uf_init ids = map (\<lambda>i. (i, i)) ids"

definition uf_find :: "union_find \<Rightarrow> string \<Rightarrow> string" where
  "uf_find uf x = (case map_of uf x of None \<Rightarrow> x | Some r \<Rightarrow> r)"

definition uf_union :: "union_find \<Rightarrow> string \<Rightarrow> string \<Rightarrow> union_find" where
  "uf_union uf x y =
     (let rx = uf_find uf x; ry = uf_find uf y
      in if rx = ry then uf else map (\<lambda>(k, r). (k, if r = rx then ry else r)) uf)"

text \<open>
  Modelled from the spec: the memories the sweep looks at (every memory outside the
  core category, which is exempt from deduplication) and its near-neighbour query:
  the ids of the other such memories whose score against this memory's embedding
  reaches the threshold. The query reads the vector index and fails with it.
\<close>

definition non_core :: "graph \<Rightarrow> memory list" where
  "non_core g = filter (\<lambda>m. category m \<noteq> Core) (memories g)"

definition neighbor_query :: "real \<Rightarrow> memory \<Rightarrow> graph \<Rightarrow> error + string list" where
  "neighbor_query threshold m g =
     (if \<not> index_ready g then Inl (StoreError ''index not ready'')
      else Inr (map mem_id
             (filter (\<lambda>n. mem_id n \<noteq> mem_id m \<and>
                           threshold \<le> score g (embedding m) (embedding n))
                (non_core g))))"

definition MAX_PAIRS :: nat where
  "MAX_PAIRS = 500"

text \<open>
  Modelled from the spec: the sweep of \<^verbatim>\<open>findDuplicateClusters\<close> (section 4.5). For
  each memory in turn it unions the memory with its near neighbours and adds their
  number to the pairs examined; once more than \<open>MAX_PAIRS\<close> pairs have been
  examined it stops and leaves the remaining memories unvisited.
\<close>

fun sweep ::
  "real \<Rightarrow> graph \<Rightarrow> memory list \<Rightarrow> union_find \<times> nat \<Rightarrow> error + union_find" where
  "sweep threshold g [] (uf, pairs) = Inr uf"
| "sweep threshold g (m # ms) (uf, pairs) =
     (if MAX_PAIRS < pairs then Inr uf
      else case neighbor_query threshold m g of
             Inl e \<Rightarrow> Inl e
           | Inr ns \<Rightarrow>
               sweep threshold g ms
                 (foldl (\<lambda>u n. uf_union u (mem_id m) n) uf ns, pairs + length ns))"

record duplicate_cluster =
  memoryIds :: "string list"

text \<open>The components of a union-find table over \<open>ids\<close>, each in the order of \<open>ids\<close>.\<close>

definition components_of :: "union_find \<Rightarrow> string list \<Rightarrow> string list list" where
  "components_of uf ids =
     map (\<lambda>r. filter (\<lambda>i. uf_find uf i = r) ids) (remdups (map (uf_find uf) ids))"

text \<open>
  Modelled from the spec: \<^verbatim>\<open>findDuplicateClusters(threshold)\<close> of the absent client
  (section 4.5): sweep the memories outside the core category, then emit the
  components with two or more members. The operation only reads the store.
\<close>

definition findDuplicateClusters :: "real \<Rightarrow> graph \<Rightarrow> error + duplicate_cluster list" where
  "findDuplicateClusters threshold g =
     (let ms = non_core g; ids = map mem_id ms
      in case sweep threshold g ms (uf_init ids, 0) of
           Inl e \<Rightarrow> Inl e
         | Inr uf \<Rightarrow>
             Inr (map (\<lambda>c. \<lparr>memoryIds = c\<rparr>)
                    (filter (\<lambda>c. 2 \<le> length c) (components_of uf ids))))"

text \<open>
  The claim's own words, to compare the sweep with: two memories outside the core
  category are linked when their similarity reaches the threshold, and a duplicate
  component is a class of the reflexive, symmetric and transitive closure of the
  links that has two or more members.
\<close>

definition similar :: "real \<Rightarrow> graph \<Rightarrow> (string \<times> string) set" where
  "similar threshold g =
     {(mem_id a, mem_id b) | a b.
        a \<in> set (non_core g) \<and> b \<in> set (non_core g) \<and> mem_id a \<noteq> mem_id b \<and>
        threshold \<le> score g (embedding a) (embedding b)}"

definition duplicate_components :: "real \<Rightarrow> graph \<Rightarrow> string set set" where
  "duplicate_components threshold g =
     {C. \<exists>a\<in>set (map mem_id (non_core g)).
           C = {b. (a, b) \<in> (similar threshold g \<union> (similar threshold g)\<inverse>)\<^sup>*} \<and> 2 \<le> card C}"

text \<open>The number of candidate pairs a full sweep examines.\<close>

definition pairs_examined :: "real \<Rightarrow> graph \<Rightarrow> nat" where
  "pairs_examined threshold g =
     sum_list (map (\<lambda>m. case neighbor_query threshold m g of Inl e \<Rightarrow> 0 | Inr ns \<Rightarrow> length ns)
                 (non_core g))"


text \<open>
  Notions for the proofs about the sweep: a well-formed table over the ids \<open>N\<close>, the
  reflexive, symmetric and transitive closure of a set of pairs, and the answer of
  the near-neighbour query on a ready index.
\<close>

definition uf_ok :: "string list \<Rightarrow> union_find \<Rightarrow> bool" where
  "uf_ok N uf \<longleftrightarrow> map fst uf = N \<and> snd ` set uf \<subseteq> set N"

definition closure :: "(string \<times> string) set \<Rightarrow> (string \<times> string) set" where
  "closure P = (P \<union> P\<inverse>)\<^sup>*"

text \<open>
  \<open>links N uf P\<close>: the table \<open>uf\<close> over the ids \<open>N\<close> has merged exactly what the
  pairs \<open>P\<close> connect.
\<close>

definition links :: "string list \<Rightarrow> union_find \<Rightarrow> (string \<times> string) set \<Rightarrow> bool" where
  "links N uf P \<longleftrightarrow>
     uf_ok N uf \<and> P \<subseteq> set N \<times> set N \<and>
     (\<forall>a\<in>set N. \<forall>b\<in>set N. uf_find uf a = uf_find uf b \<longleftrightarrow> (a, b) \<in> closure P)"

definition neighbors :: "real \<Rightarrow> graph \<Rightarrow> memory \<Rightarrow> string list" where
  "neighbors threshold g m =
     map mem_id (filter (\<lambda>n. mem_id n \<noteq> mem_id m \<and>
                               threshold \<le> score g (embedding m) (embedding n)) (non_core g))"


section \<open>Concrete inputs\<close>

definition sample_message :: jsstring where
  "sample_message = js ''the api key for the lab db is kept in vault''"

definition digit_groups :: jsstring where
  "digit_groups = js ''12345 67890 12345 67890 12345 67890''"

definition dot_product :: "real list \<Rightarrow> real list \<Rightarrow> real" where
  "dot_product u v = sum_list (map2 (\<lambda>a b. a * b) u v)"

definition remembered :: "string \<Rightarrow> real \<Rightarrow> memory" where
  "remembered i imp = \<lparr>mem_id = i, mem_text = ''note '' @ i, embedding = [1, 0], importance = imp,
                 category = Fact\<rparr>"

definition small_store :: graph where
  "small_store =
     \<lparr>memories = [remembered ''low'' (3/10), remembered ''high'' (9/10), remembered ''mid'' (1/2),
                  remembered ''550e8400-e29b-41d4-a716-446655440000'' (4/5)],
      entities = [\<lparr>ent_id = ''alice'', mentionCount = 3\<rparr>, \<lparr>ent_id = ''bob'', mentionCount = 1\<rparr>],
      mentions = [(''low'', ''alice''), (''high'', ''alice''), (''mid'', ''bob''),
                  (''550e8400-e29b-41d4-a716-446655440000'', ''alice'')],
      index_ready = True,
      score = dot_product\<rparr>"

definition small_client :: client where
  "small_client = \<lparr>store = small_store, queries = 0, logged = []\<rparr>"

definition cold_client :: client where
  "cold_client = \<lparr>store = small_store\<lparr>index_ready := False\<rparr>, queries = 0, logged = []\<rparr>"

definition flaky :: "nat \<Rightarrow> (error + string) \<times> nat" where
  "flaky n = (if n = 0 then Inl (StoreError ''TransientError: deadlock'') else Inr ''success'',
              Suc n)"

definition always_busy :: "nat \<Rightarrow> (error + string) \<times> nat" where
  "always_busy n = (Inl (StoreError ''TransientError: timeout''), Suc n)"

definition broken :: "nat \<Rightarrow> (error + string) \<times> nat" where
  "broken n = (Inl (StoreError ''ConstraintViolation''), Suc n)"


definition trio :: graph where
  "trio =
     \<lparr>memories =
        [\<lparr>mem_id = ''m1'', mem_text = ''text1'', embedding = [1, 0], importance = 1/2,
          category = Fact\<rparr>,
         \<lparr>mem_id = ''m2'', mem_text = ''text2'', embedding = [4/5, 3/5], importance = 3/5,
          category = Fact\<rparr>,
         \<lparr>mem_id = ''m3'', mem_text = ''text3'', embedding = [7/25, 24/25], importance = 7/10,
          category = Other\<rparr>,
         \<lparr>mem_id = ''m4'', mem_text = ''text4'', embedding = [4/5, 3/5], importance = 7/10,
          category = Core\<rparr>],
      entities = [], mentions = [], index_ready = True, score = dot_product\<rparr>"

definition crowd_ids :: "string list" where
  "crowd_ids = map (\<lambda>c. [c]) ''abcdefghijklmnopqrstuvwx''"

definition crowded :: graph where
  "crowded =
     \<lparr>memories =
        map (\<lambda>i. \<lparr>mem_id = i, mem_text = ''same'', embedding = [1, 0], importance = 1/2,
                  category = Fact\<rparr>) crowd_ids @
        [\<lparr>mem_id = ''y'', mem_text = ''twin'', embedding = [0, 1], importance = 1/2,
          category = Fact\<rparr>,
         \<lparr>mem_id = ''z'', mem_text = ''twin'', embedding = [0, 1], importance = 1/2,
          category = Fact\<rparr>],
      entities = [], mentions = [], index_ready = True, score = dot_product\<rparr>"


section \<open>Properties of the attention gate\<close>

subsection \<open>Evaluating patterns\<close>

lemma at_most_numeral: "at_most (numeral n) r = opt (Cat r (at_most (pred_numeral n) r))"
  by (simp add: numeral_eq_Suc)

lemma exactly_numeral: "exactly (numeral n) r = Cat r (exactly (pred_numeral n) r)"
  by (simp add: numeral_eq_Suc)

lemmas pattern_defs =
  noise_greeting_def noise_affirmation_def noise_deictic_def noise_short_ack_def
  noise_filler_def noise_near_empty_def noise_pure_emoji_def noise_markup_def
  noise_new_session_def noise_heartbeat_def noise_compaction_def noise_system_def
  noise_cron_def noise_gateway_restart_def noise_background_task_def tag_name_def
  tail_punct_def apostrophe_def words_i_def lit_i_def chr_i_def chr_s_def one_of_def
  ws_def non_ws_def digit_def word_char_def dot_def is_digit_def is_lower_def is_upper_def
  ascii_upper_def from_start_def somewhere_def anything_def opt_def one_or_more_def
  is_Emoji_def Emoji_ranges_def is_space_cp_def at_most_numeral exactly_numeral
  full_match_def is_space_def is_lead_def is_trail_def js_def

lemmas threshold_defs =
  MIN_CAPTURE_CHARS_def MAX_CAPTURE_CHARS_def MAX_ASSISTANT_CAPTURE_CHARS_def
  MIN_WORD_COUNT_def MIN_ASSISTANT_WORD_COUNT_def

subsection \<open>Strings of digits and the pure-emoji pattern\<close>

lemma code_points_bmp: "\<forall>u\<in>set s. \<not> is_lead u \<Longrightarrow> code_points s = map unat s"
  by (induction s rule: code_points.induct) auto

lemma steps_star_class: "\<forall>x\<in>set xs. p x \<Longrightarrow> steps (Star (Class p)) xs = Star (Class p)"
  by (induction xs) auto

lemma full_match_one_or_more_class:
  assumes "xs \<noteq> []" and "\<forall>x\<in>set xs. p x"
  shows "full_match (one_or_more (Class p)) xs"
proof -
  from assms obtain y ys where xs: "xs = y # ys" by (cases xs) auto
  with assms have "p y" "\<forall>x\<in>set ys. p x" by auto
  then show ?thesis
    by (simp add: xs full_match_def one_or_more_def steps_star_class)
qed

lemma digit_is_Emoji: "is_digit u \<Longrightarrow> is_Emoji (unat u)"
proof -
  assume "is_digit u"
  then have "0x30 \<le> unat u \<and> unat u \<le> 0x39"
    by (simp add: is_digit_def word_le_nat_alt)
  moreover have "(0x30, 0x39) \<in> set Emoji_ranges"
    by (simp add: Emoji_ranges_def)
  ultimately show ?thesis
    unfolding is_Emoji_def list_ex_iff by blast
qed

lemma space_is_space_cp: "is_space u \<Longrightarrow> is_space_cp (unat u)"
proof -
  have "unat u < 2 ^ 16" using unsigned_less [of u, where 'a = nat] by simp
  then show "is_space u \<Longrightarrow> is_space_cp (unat u)"
    by (simp add: is_space_cp_def)
qed

lemma digit_not_lead: "is_digit u \<Longrightarrow> \<not> is_lead u"
  by (auto simp: is_digit_def is_lead_def word_le_nat_alt)

lemma space_not_lead: "is_space u \<Longrightarrow> \<not> is_lead u"
  by (auto simp: is_space_def is_lead_def word_le_nat_alt)

lemma digits_match_pure_emoji:
  assumes "s \<noteq> []" and "\<forall>u\<in>set s. is_digit u \<or> is_space u"
  shows "test noise_pure_emoji s"
proof -
  from assms(2) have "\<forall>u\<in>set s. \<not> is_lead u"
    using digit_not_lead space_not_lead by blast
  then have cp: "code_points s = map unat s" by (rule code_points_bmp)
  have "\<forall>x\<in>set (map unat s). is_Emoji x \<or> is_space_cp x"
    using assms(2) digit_is_Emoji space_is_space_cp by auto
  with assms(1) show ?thesis
    by (simp add: noise_pure_emoji_def cp full_match_one_or_more_class)
qed

subsection \<open>A message that both gates retain\<close>

lemma sample_trim: "trim sample_message = sample_message"
  by (simp add: sample_message_def js_def trim_def is_space_def)

lemma sample_length: "length sample_message = 43"
  by (simp add: sample_message_def js_def)

lemma sample_words: "length (split_ws sample_message) = 11"
  by (simp add: sample_message_def js_def split_ws_def is_space_def)

lemma sample_code: "codeChars sample_message = 0"
  by (simp add: codeChars.simps sample_message_def js_def fence_def)

lemma sample_markers:
  "\<not> includes_js sample_message (js ''<tool_result>'')"
  "\<not> includes_js sample_message (js ''<tool_use>'')"
  "\<not> includes_js sample_message (js ''<function_call>'')"
  "\<not> includes_js sample_message (js ''<relevant-memories>'')"
  "\<not> includes_js sample_message (js ''<core-memory-refresh>'')"
  by (simp_all add: sample_message_def js_def)

lemma sample_noise: "\<not> list_ex (\<lambda>r. test r sample_message) NOISE_PATTERNS"
  by (simp add: NOISE_PATTERNS_def sample_message_def pattern_defs)

lemma sample_emoji: "emojiCount sample_message = 0"
  by (simp add: emojiCount_def sample_message_def js_def is_lead_def)

lemma sample_passes: "passesAssistantAttentionGate sample_message"
  by (simp add: passesAssistantAttentionGate_def Let_def threshold_defs sample_trim
      sample_length sample_words sample_code sample_markers sample_noise sample_emoji)

subsection \<open>Length and word-count bounds\<close>

text \<open>
  C6. A text whose trimmed length is below 30 or above the ceiling, or whose
  trimmed form splits at white space into fewer words than the minimum, is rejected
  whatever it contains: by the user gate with ceiling 2000 and at least 5 words, by
  the assistant gate with ceiling 1000 and at least 10 words.
\<close>

theorem gate_rejects_outside_bounds:
  "(length (trim t) < 30 \<or> length (trim t) > 2000 \<or> length (split_ws (trim t)) < 5
      \<longrightarrow> \<not> passesAttentionGate t) \<and>
   (length (trim t) < 30 \<or> length (trim t) > 1000 \<or> length (split_ws (trim t)) < 10
      \<longrightarrow> \<not> passesAssistantAttentionGate t)"
  by (simp add: passesAttentionGate_def passesAssistantAttentionGate_def Let_def
      threshold_defs)

theorem gate_rejects_outside_bounds_witness:
  "length (trim (js ''  hi there  '')) < 30 \<and>
   \<not> passesAttentionGate (js ''  hi there  '') \<and>
   \<not> passesAssistantAttentionGate (js ''  hi there  '')"
proof -
  have "length (trim (js ''  hi there  '')) = 8"
    by (simp add: js_def trim_def is_space_def)
  then show ?thesis
    using gate_rejects_outside_bounds [of "js ''  hi there  ''"] by simp
qed

subsection \<open>The assistant gate against the user gate\<close>

text \<open>
  C7. The assistant gate is at least as strict as the user gate: a text that the
  assistant gate retains is retained by the user gate.
\<close>

theorem assistant_gate_implies_user_gate:
  "passesAssistantAttentionGate t \<Longrightarrow> passesAttentionGate t"
  unfolding passesAssistantAttentionGate_def passesAttentionGate_def Let_def threshold_defs
  by (auto split: if_splits)

theorem assistant_gate_implies_user_gate_witness:
  "passesAssistantAttentionGate sample_message \<and> passesAttentionGate sample_message"
  using assistant_gate_implies_user_gate [of sample_message] sample_passes by simp

subsection \<open>Digits count as emoji\<close>

text \<open>
  C10. A text whose trimmed form consists of ASCII digits and white space only is
  rejected by the user gate, also when it is long enough and has enough words:
  unless the trimmed form is empty, the pure-emoji pattern matches it, since the
  Emoji property holds of the ASCII digits.
\<close>

theorem digits_rejected_as_pure_emoji:
  assumes "\<forall>u\<in>set (trim t). is_digit u \<or> is_space u"
  shows "\<not> passesAttentionGate t \<and> (trim t \<noteq> [] \<longrightarrow> test noise_pure_emoji (trim t))"
proof -
  have m: "trim t \<noteq> [] \<longrightarrow> test noise_pure_emoji (trim t)"
    using assms digits_match_pure_emoji by blast
  have "\<not> passesAttentionGate t"
  proof (cases "trim t = []")
    case True
    then show ?thesis by (simp add: passesAttentionGate_def threshold_defs)
  next
    case False
    with m have "list_ex (\<lambda>r. test r (trim t)) NOISE_PATTERNS"
      by (simp add: NOISE_PATTERNS_def)
    then show ?thesis by (simp add: passesAttentionGate_def Let_def)
  qed
  with m show ?thesis by simp
qed

theorem digits_rejected_as_pure_emoji_witness:
  "30 \<le> length (trim digit_groups) \<and> 5 \<le> length (split_ws (trim digit_groups)) \<and>
   \<not> passesAttentionGate digit_groups \<and> test noise_pure_emoji (trim digit_groups)"
proof -
  have tr: "trim digit_groups = digit_groups"
    by (simp add: digit_groups_def js_def trim_def is_space_def)
  have "\<forall>u\<in>set (trim digit_groups). is_digit u \<or> is_space u"
    unfolding tr by (simp add: digit_groups_def js_def is_digit_def is_space_def)
  from digits_rejected_as_pure_emoji [OF this]
  have "\<not> passesAttentionGate digit_groups"
    and "trim digit_groups \<noteq> [] \<longrightarrow> test noise_pure_emoji (trim digit_groups)"
    by simp_all
  moreover have "length digit_groups = 35"
    by (simp add: digit_groups_def js_def)
  moreover have "length (split_ws digit_groups) = 6"
    by (simp add: digit_groups_def js_def split_ws_def is_space_def)
  ultimately show ?thesis by (auto simp: tr)
qed


section \<open>Properties of the store client\<close>

lemmas small_defs = small_client_def small_store_def remembered_def memory_ids_def

subsection \<open>Merging a cluster\<close>

lemma foldl_pick_mem:
  "foldl (\<lambda>best q. if snd best < snd q then q else best) p ps \<in> set (p # ps)"
  by (induction ps rule: rev_induct) auto

lemma foldl_pick_max:
  fixes p :: "'a \<times> real"
  assumes "q \<in> set (p # ps)" and "\<forall>r\<in>set (p # ps). r \<noteq> q \<longrightarrow> snd r < snd q"
  shows "foldl (\<lambda>best x. if snd best < snd x then x else best) p ps = q"
  using assms
proof (induction ps rule: rev_induct)
  case Nil
  then show ?case by simp
next
  case (snoc x ps)
  let ?f = "\<lambda>best x :: 'a \<times> real. if snd best < snd x then x else best"
  show ?case
  proof (cases "q \<in> set (p # ps)")
    case True
    moreover have "\<forall>r\<in>set (p # ps). r \<noteq> q \<longrightarrow> snd r < snd q"
      using snoc.prems(2) by simp
    ultimately have IH: "foldl ?f p ps = q" by (rule snoc.IH)
    have "\<not> snd q < snd x \<or> x = q"
      using snoc.prems(2) by fastforce
    then show ?thesis using IH by auto
  next
    case False
    with snoc.prems(1) have qx: "q = x" by simp
    have m: "foldl ?f p ps \<in> set (p # ps)" by (rule foldl_pick_mem)
    with False have "foldl ?f p ps \<noteq> q" by blast
    moreover from m have "foldl ?f p ps \<in> set (p # ps @ [x])" by auto
    ultimately have "snd (foldl ?f p ps) < snd q" using snoc.prems(2) by blast
    then show ?thesis using qx by simp
  qed
qed

lemma pick_survivor_highest:
  assumes len: "length importances = length ids"
    and i: "i < length ids"
    and top: "\<forall>j<length ids. j \<noteq> i \<longrightarrow> importances ! j < importances ! i"
  shows "pick_survivor ids importances = Some (ids ! i)"
proof -
  let ?q = "(ids ! i, importances ! i)"
  have q: "?q \<in> set (zip ids importances)"
    using i len by (auto simp: set_zip)
  then obtain p ps where z: "zip ids importances = p # ps"
    by (cases "zip ids importances") auto
  have "\<forall>r\<in>set (p # ps). r \<noteq> ?q \<longrightarrow> snd r < snd ?q"
  proof (intro ballI impI)
    fix r assume "r \<in> set (p # ps)" and ne: "r \<noteq> ?q"
    then obtain j where j: "j < length ids" "r = (ids ! j, importances ! j)"
      unfolding z [symmetric] using len by (auto simp: set_zip)
    with ne have "j \<noteq> i" by auto
    with top j show "snd r < snd ?q" by simp
  qed
  with q have "foldl (\<lambda>best x. if snd best < snd x then x else best) p ps = ?q"
    unfolding z by (rule foldl_pick_max)
  then show ?thesis using z by simp
qed

lemma length_filter_neq:
  "distinct xs \<Longrightarrow> x \<in> set xs \<Longrightarrow> length (filter (\<lambda>i. i \<noteq> x) xs) = length xs - 1"
proof (induction xs)
  case Nil
  then show ?case by simp
next
  case (Cons a xs)
  show ?case
  proof (cases "a = x")
    case True
    with Cons.prems have "x \<notin> set xs" by simp
    then have "filter (\<lambda>i. i \<noteq> x) xs = xs" by (auto simp: filter_id_conv)
    with True show ?thesis by simp
  next
    case False
    with Cons have "length (filter (\<lambda>i. i \<noteq> x) xs) = length xs - 1" "x \<in> set xs" by auto
    moreover then have "0 < length xs" by (cases xs) auto
    ultimately show ?thesis using False by simp
  qed
qed

text \<open>
  C1. For a cluster of distinct ids that all exist, with pairwise distinct
  importances, \<^verbatim>\<open>mergeMemoryCluster\<close> keeps the member with the highest importance
  (\<open>ids ! i\<close>), reports it with a deleted count of the cluster size minus one,
  deletes exactly the other members, and moves every MENTIONS edge of a deleted
  member to the survivor while leaving every other edge as it was.
\<close>

theorem merge_keeps_highest_importance:
  assumes len: "length importances = length ids"
    and dist: "distinct ids" "distinct importances"
    and exist: "set ids \<subseteq> set (memory_ids (store c))"
    and i: "i < length ids"
    and top: "\<forall>j<length ids. importances ! j \<le> importances ! i"
  shows "fst (mergeMemoryCluster ids importances c) =
           \<lparr>survivorId = Some (ids ! i), deletedCount = length ids - 1\<rparr> \<and>
         set (memory_ids (store (snd (mergeMemoryCluster ids importances c)))) =
           set (memory_ids (store c)) - (set ids - {ids ! i}) \<and>
         set (mentions (store (snd (mergeMemoryCluster ids importances c)))) =
           (\<lambda>(m, e). (if m \<in> set ids - {ids ! i} then ids ! i else m, e)) `
             set (mentions (store c))"
proof -
  let ?s = "ids ! i"
  let ?losers = "filter (\<lambda>j. j \<noteq> ?s) ids"
  have "\<forall>j<length ids. j \<noteq> i \<longrightarrow> importances ! j < importances ! i"
  proof (intro allI impI)
    fix j assume j: "j < length ids" "j \<noteq> i"
    with dist(2) len i have "importances ! j \<noteq> importances ! i"
      by (simp add: nth_eq_iff_index_eq)
    with top j(1) show "importances ! j < importances ! i" by fastforce
  qed
  with len i have pick: "pick_survivor ids importances = Some ?s"
    by (rule pick_survivor_highest)
  have all: "list_all snd (verify_query ids (store c))"
    using exist by (auto simp: verify_query_def list_all_iff)
  have res: "mergeMemoryCluster ids importances c =
      (\<lparr>survivorId = Some ?s, deletedCount = length ?losers\<rparr>,
       c\<lparr>store := delete_many_query ?losers (transfer_query ?losers ?s (store c)),
         queries := queries c + 3\<rparr>)"
    using pick all by (simp add: mergeMemoryCluster_def Let_def del: pick_survivor.simps)
  have cnt: "length ?losers = length ids - 1"
    using dist(1) i by (simp add: length_filter_neq)
  have ls: "set ?losers = set ids - {?s}" by auto
  have mem: "set (memory_ids (delete_many_query ?losers (transfer_query ?losers ?s (store c)))) =
      set (memory_ids (store c)) - (set ids - {?s})"
    unfolding ls memory_ids_def delete_many_query_def transfer_query_def by auto
  have men: "set (mentions (delete_many_query ?losers (transfer_query ?losers ?s (store c)))) =
      (\<lambda>(m, e). (if m \<in> set ids - {?s} then ?s else m, e)) ` set (mentions (store c))"
    unfolding ls delete_many_query_def transfer_query_def by (auto simp: image_iff) force+
  show ?thesis using res cnt mem men by simp
qed

theorem merge_keeps_highest_importance_witness:
  "fst (mergeMemoryCluster [''low'', ''high'', ''mid''] [3/10, 9/10, 1/2] small_client) =
     \<lparr>survivorId = Some ''high'', deletedCount = 2\<rparr> \<and>
   set (memory_ids (store (snd (mergeMemoryCluster [''low'', ''high'', ''mid'']
          [3/10, 9/10, 1/2] small_client)))) =
     {''high'', ''550e8400-e29b-41d4-a716-446655440000''} \<and>
   set (mentions (store (snd (mergeMemoryCluster [''low'', ''high'', ''mid'']
          [3/10, 9/10, 1/2] small_client)))) =
     {(''high'', ''alice''), (''high'', ''bob''),
      (''550e8400-e29b-41d4-a716-446655440000'', ''alice'')} \<and>
   fst (mergeMemoryCluster [''mid''] [1/2] small_client) =
     \<lparr>survivorId = Some ''mid'', deletedCount = 0\<rparr>"
proof -
  have top: "\<forall>j<length [''low'', ''high'', ''mid'']. [3/10, 9/10, 1/2 :: real] ! j \<le> [3/10, 9/10, 1/2] ! 1"
    by (auto simp: less_Suc_eq)
  have ex: "set [''low'', ''high'', ''mid''] \<subseteq> set (memory_ids (store small_client))"
    by (simp add: small_defs)
  have ex1: "set [''mid''] \<subseteq> set (memory_ids (store small_client))"
    by (simp add: small_defs)
  show ?thesis
    using merge_keeps_highest_importance [of "[3/10, 9/10, 1/2]" "[''low'', ''high'', ''mid'']" small_client 1, OF _ _ _ ex _ top]
      merge_keeps_highest_importance [of "[1/2]" "[''mid'']" small_client 0, OF _ _ _ ex1]
    by (simp add: small_defs insert_Diff_if)
qed

text \<open>
  C2. When a member of the cluster no longer exists, \<^verbatim>\<open>mergeMemoryCluster\<close> reports
  a deleted count of 0, leaves the store as it was, and logs one warning.
\<close>

theorem merge_skipped_when_member_missing:
  assumes "\<exists>i\<in>set ids. i \<notin> set (memory_ids (store c))"
  shows "deletedCount (fst (mergeMemoryCluster ids importances c)) = 0 \<and>
         store (snd (mergeMemoryCluster ids importances c)) = store c \<and>
         logged (snd (mergeMemoryCluster ids importances c)) =
           logged c @ [(Warn, ''memory missing, skipping cluster merge'')]"
proof -
  from assms have "\<not> list_all snd (verify_query ids (store c))"
    by (auto simp: verify_query_def list_all_iff)
  then show ?thesis
    by (simp add: mergeMemoryCluster_def Let_def del: pick_survivor.simps)
qed

theorem merge_skipped_when_member_missing_witness:
  "deletedCount (fst (mergeMemoryCluster [''low'', ''gone''] [1/2, 3/5] small_client)) = 0 \<and>
   store (snd (mergeMemoryCluster [''low'', ''gone''] [1/2, 3/5] small_client)) = small_store \<and>
   logged (snd (mergeMemoryCluster [''low'', ''gone''] [1/2, 3/5] small_client)) =
     [(Warn, ''memory missing, skipping cluster merge'')]"
proof -
  have "\<exists>i\<in>set [''low'', ''gone'']. i \<notin> set (memory_ids (store small_client))"
    by (simp add: small_defs)
  from merge_skipped_when_member_missing [OF this, of "[1/2, 3/5]"] show ?thesis
    by (simp add: small_client_def)
qed

subsection \<open>Retrying transient failures\<close>

lemma transient_examples:
  "is_transient (StoreError ''TransientError: deadlock'')"
  "is_transient (StoreError ''TransientError: timeout'')"
  "\<not> is_transient (StoreError ''ConstraintViolation'')"
  by (simp_all add: is_transient_def TRANSIENT_KEYWORDS_def)

text \<open>
  C3. \<^verbatim>\<open>retryOnTransient\<close> invokes the operation at most three times. Three
  failures, the first two transient, are three invocations and the failure of the
  third one propagates; a first failure that is not transient is one invocation and
  propagates; a success at the first, second or third invocation is returned.
\<close>

theorem retry_on_transient_attempts:
  "(f a = (Inl x, b) \<and> is_transient x \<and> f b = (Inl y, c) \<and> is_transient y \<and>
    f c = (Inl z, d)
      \<longrightarrow> retryOnTransient (counted f) (0, a) = (Inl z, (3, d))) \<and>
   (f a = (Inl x, b) \<and> \<not> is_transient x
      \<longrightarrow> retryOnTransient (counted f) (0, a) = (Inl x, (1, b))) \<and>
   (f a = (Inr v, b)
      \<longrightarrow> retryOnTransient (counted f) (0, a) = (Inr v, (1, b))) \<and>
   (f a = (Inl x, b) \<and> is_transient x \<and> f b = (Inr v, c)
      \<longrightarrow> retryOnTransient (counted f) (0, a) = (Inr v, (2, c))) \<and>
   (f a = (Inl x, b) \<and> is_transient x \<and> f b = (Inl y, c) \<and> is_transient y \<and>
    f c = (Inr v, d)
      \<longrightarrow> retryOnTransient (counted f) (0, a) = (Inr v, (3, d))) \<and>
   fst (snd (retryOnTransient (counted f) (0, a))) \<le> 3"
  by (auto simp: retryOnTransient_def TRANSIENT_RETRY_ATTEMPTS_def numeral_2_eq_2 counted_def
      split: prod.splits sum.splits)

theorem retry_on_transient_attempts_witness:
  "retryOnTransient (counted always_busy) (0, 0) =
     (Inl (StoreError ''TransientError: timeout''), (3, 3)) \<and>
   retryOnTransient (counted broken) (0, 0) = (Inl (StoreError ''ConstraintViolation''), (1, 1)) \<and>
   retryOnTransient (counted flaky) (0, 0) = (Inr ''success'', (2, 2))"
  using retry_on_transient_attempts [where f = always_busy and a = 0 and b = 1 and c = 2 and d = 3
             and x = "StoreError ''TransientError: timeout''"
             and y = "StoreError ''TransientError: timeout''"
             and z = "StoreError ''TransientError: timeout''"]
        retry_on_transient_attempts [where f = broken and a = 0 and b = 1 and x = "StoreError ''ConstraintViolation''"]
        retry_on_transient_attempts [where f = flaky and a = 0 and b = 1 and c = 2 and v = "''success''"
             and x = "StoreError ''TransientError: deadlock''"]
  by (simp add: always_busy_def broken_def flaky_def transient_examples)

subsection \<open>Deleting a memory\<close>

lemma uuid_examples:
  "is_uuid ''550e8400-e29b-41d4-a716-446655440000''"
  "is_uuid ''123e4567-e89b-12d3-a456-426614174000''"
  "\<not> is_uuid ''not-a-uuid''"
  by (simp_all add: is_uuid_def is_hex_def)

text \<open>
  C4. For an identifier that is not UUID-shaped, \<^verbatim>\<open>deleteMemory\<close> fails with the
  invalid-identifier error and leaves the client as it was: the store is not
  changed and no query is counted. For a UUID-shaped identifier it returns true
  and the memory is gone when a memory with that id existed, and false, with the
  store unchanged, when none did.
\<close>

theorem delete_memory_checks_identifier:
  "(\<not> is_uuid i \<longrightarrow>
      deleteMemory i c = (Inl (InvalidIdentifier ''Invalid memory ID format''), c)) \<and>
   (is_uuid i \<and> i \<in> set (memory_ids (store c)) \<longrightarrow>
      fst (deleteMemory i c) = Inr True \<and>
      i \<notin> set (memory_ids (store (snd (deleteMemory i c))))) \<and>
   (is_uuid i \<and> i \<notin> set (memory_ids (store c)) \<longrightarrow>
      fst (deleteMemory i c) = Inr False \<and> store (snd (deleteMemory i c)) = store c)"
  by (auto simp: deleteMemory_def delete_query_def memory_ids_def Let_def filter_empty_conv
      split: prod.splits if_splits)

theorem delete_memory_checks_identifier_witness:
  "deleteMemory ''not-a-uuid'' small_client =
     (Inl (InvalidIdentifier ''Invalid memory ID format''), small_client) \<and>
   fst (deleteMemory ''550e8400-e29b-41d4-a716-446655440000'' small_client) = Inr True \<and>
   fst (deleteMemory ''123e4567-e89b-12d3-a456-426614174000'' small_client) = Inr False"
  using delete_memory_checks_identifier [of "''not-a-uuid''" small_client]
    delete_memory_checks_identifier [of "''550e8400-e29b-41d4-a716-446655440000''" small_client]
    delete_memory_checks_identifier [of "''123e4567-e89b-12d3-a456-426614174000''" small_client]
  by (simp add: uuid_examples small_defs)

lemma delete_decrements:
  "entities (store (snd (deleteMemory ''550e8400-e29b-41d4-a716-446655440000'' small_client))) =
     [\<lparr>ent_id = ''alice'', mentionCount = 2\<rparr>, \<lparr>ent_id = ''bob'', mentionCount = 1\<rparr>]"
  by (simp add: deleteMemory_def uuid_examples delete_query_def Let_def small_defs)

subsection \<open>The Pareto threshold\<close>

text \<open>
  C8. \<^verbatim>\<open>calculateParetoThreshold\<close> returns 0 for the empty list and the one score
  of a one-element list, for every percentile.
\<close>

theorem pareto_threshold_empty_and_single:
  "calculateParetoThreshold [] percentile = 0 \<and>
   calculateParetoThreshold [x] percentile = effectiveScore x"
  by (simp add: calculateParetoThreshold_def)

theorem pareto_threshold_empty_and_single_witness:
  "calculateParetoThreshold [] (4/5) = 0 \<and>
   calculateParetoThreshold [\<lparr>scored_id = ''1'', effectiveScore = 3/4\<rparr>] (4/5) = 3/4"
  using pareto_threshold_empty_and_single [of "4/5" "\<lparr>scored_id = ''1'', effectiveScore = 3/4\<rparr>"] by simp

lemma pareto_ten: "calculateParetoThreshold (map (\<lambda>(i, s). \<lparr>scored_id = i, effectiveScore = s\<rparr>) 
   [(''1'', 1), (''2'', 0.9), (''3'', 0.8), (''4'', 0.7), (''5'', 0.6), (''6'', 0.5), (''7'', 0.4), (''8'', 0.3), (''9'', 0.2), (''10'', 0.1)]) 0.8 = 0.9"
  by (simp add: calculateParetoThreshold_def)

subsection \<open>Similarity search on a failing index\<close>

text \<open>
  C9. When the query to the vector index fails, \<^verbatim>\<open>findSimilar\<close> returns the empty
  list; its result type has no failure.
\<close>

theorem find_similar_swallows_index_failure:
  "vector_query q threshold limit (store c) = Inl e \<Longrightarrow> fst (findSimilar q threshold limit c) = []"
  by (simp add: findSimilar_def)

theorem find_similar_swallows_index_failure_witness:
  "vector_query [1, 0] (19/20) 5 (store cold_client) = Inl (StoreError ''index not ready'') \<and>
   fst (findSimilar [1, 0] (19/20) 5 cold_client) = []"
proof -
  have "vector_query [1, 0] (19/20) 5 (store cold_client) = Inl (StoreError ''index not ready'')"
    by (simp add: vector_query_def cold_client_def)
  with find_similar_swallows_index_failure [OF this] show ?thesis by simp
qed

lemma findSimilar_ready:
  "map hit_id (fst (findSimilar [1, 0] (19/20) 2 small_client)) = [''550e8400-e29b-41d4-a716-446655440000'', ''mid'']"
  by (simp add: findSimilar_def vector_query_def small_defs dot_product_def)


section \<open>Properties of findDuplicateClusters\<close>

subsection \<open>The union-find table\<close>

lemma uf_ok_init: "uf_ok N (uf_init N)"
  by (auto simp: uf_ok_def uf_init_def comp_def)

lemma uf_find_init: "uf_find (uf_init N) x = x"
  by (induction N) (auto simp: uf_find_def uf_init_def)

lemma uf_find_Some: "map_of uf z = Some r \<Longrightarrow> uf_find uf z = r"
  by (simp add: uf_find_def)

lemma uf_find_in: "uf_ok N uf \<Longrightarrow> x \<in> set N \<Longrightarrow> uf_find uf x \<in> set N"
proof -
  assume ok: "uf_ok N uf" and x: "x \<in> set N"
  then have "x \<in> fst ` set uf" by (metis uf_ok_def set_map)
  then obtain r where r: "map_of uf x = Some r"
    by (metis domD dom_map_of_conv_image_fst)
  then have "(x, r) \<in> set uf" by (rule map_of_SomeD)
  then have "r \<in> set N" using ok by (force simp: uf_ok_def)
  then show ?thesis using r by (simp add: uf_find_def)
qed

lemma uf_union_ok:
  assumes "uf_ok N uf" "y \<in> set N"
  shows "uf_ok N (uf_union uf x y)"
proof -
  have "uf_find uf y \<in> set N" using assms by (rule uf_find_in)
  then show ?thesis using assms(1)
    by (auto simp: uf_ok_def uf_union_def Let_def comp_def case_prod_unfold)
qed

lemma uf_find_union:
  assumes "uf_ok N uf" "z \<in> set N"
  shows "uf_find (uf_union uf x y) z =
           (if uf_find uf z = uf_find uf x then uf_find uf y else uf_find uf z)"
proof (cases "uf_find uf x = uf_find uf y")
  case True
  then show ?thesis by (simp add: uf_union_def)
next
  case False
  from assms have "z \<in> fst ` set uf" by (metis uf_ok_def set_map)
  then obtain r where r: "map_of uf z = Some r"
    by (metis domD dom_map_of_conv_image_fst)
  let ?f = "\<lambda>r. if r = uf_find uf x then uf_find uf y else r"
  let ?uf = "map (\<lambda>(k, r). (k, ?f r)) uf"
  have u: "uf_union uf x y = ?uf"
    using False by (simp add: uf_union_def Let_def)
  have "map_of ?uf z = map_option ?f (map_of uf z)"
    by (simp add: map_of_map)
  then have m: "map_of ?uf z = Some (?f r)" using r by simp
  have "uf_find ?uf z = ?f r" using m by (rule uf_find_Some)
  moreover have "uf_find uf z = r" using r by (rule uf_find_Some)
  ultimately show ?thesis unfolding u by simp
qed

subsection \<open>Unions and the closure of the links\<close>

lemma closure_refl: "(a, a) \<in> closure P"
  by (simp add: closure_def)

lemma closure_sym: "(a, b) \<in> closure P \<Longrightarrow> (b, a) \<in> closure P"
  unfolding closure_def by (metis sym_Un_converse sym_rtrancl symD)

lemma closure_trans: "(a, b) \<in> closure P \<Longrightarrow> (b, c) \<in> closure P \<Longrightarrow> (a, c) \<in> closure P"
  unfolding closure_def by (rule rtrancl_trans)

lemma closure_base: "(a, b) \<in> P \<Longrightarrow> (a, b) \<in> closure P"
  unfolding closure_def by blast

lemma closure_mono: "P \<subseteq> Q \<Longrightarrow> closure P \<subseteq> closure Q"
  unfolding closure_def by (intro rtrancl_mono) blast

lemma closure_stays:
  assumes "(a, b) \<in> closure P" "P \<subseteq> A \<times> A" "a \<in> A"
  shows "b \<in> A"
  using assms(1) unfolding closure_def
  by (induction rule: rtrancl_induct) (use assms(2,3) in auto)

lemma links_init: "links N (uf_init N) {}"
  by (auto simp: links_def uf_ok_init uf_find_init closure_def)

lemma links_union:
  assumes l: "links N uf P" and x: "x \<in> set N" and y: "y \<in> set N"
  shows "links N (uf_union uf x y) (insert (x, y) P)"
proof -
  let ?Q = "insert (x, y) P"
  from l have ok: "uf_ok N uf" and P: "P \<subseteq> set N \<times> set N"
    and eq: "\<And>a b. a \<in> set N \<Longrightarrow> b \<in> set N \<Longrightarrow>
               uf_find uf a = uf_find uf b \<longleftrightarrow> (a, b) \<in> closure P"
    by (auto simp: links_def)
  have sub: "closure P \<subseteq> closure ?Q" by (rule closure_mono) blast
  have xy: "(x, y) \<in> closure ?Q" by (rule closure_base) simp
  have Q: "?Q \<subseteq> set N \<times> set N" using P x y by auto
  have fu: "\<And>z. z \<in> set N \<Longrightarrow> uf_find (uf_union uf x y) z =
      (if uf_find uf z = uf_find uf x then uf_find uf y else uf_find uf z)"
    using ok by (rule uf_find_union)
  have "uf_find (uf_union uf x y) a = uf_find (uf_union uf x y) b \<longleftrightarrow> (a, b) \<in> closure ?Q"
    if a: "a \<in> set N" and b: "b \<in> set N" for a b
  proof
    assume "uf_find (uf_union uf x y) a = uf_find (uf_union uf x y) b"
    then consider
        (both) "uf_find uf a = uf_find uf x" "uf_find uf b = uf_find uf x"
      | (left) "uf_find uf a = uf_find uf x" "uf_find uf y = uf_find uf b"
      | (right) "uf_find uf b = uf_find uf x" "uf_find uf a = uf_find uf y"
      | (none) "uf_find uf a = uf_find uf b"
      using fu [OF a] fu [OF b] by (auto split: if_splits)
    then show "(a, b) \<in> closure ?Q"
    proof cases
      case both
      then have "uf_find uf a = uf_find uf b" by simp
      with eq a b sub show ?thesis by blast
    next
      case left
      then have "(a, x) \<in> closure ?Q" "(y, b) \<in> closure ?Q"
        using eq a b x y sub by blast+
      with xy show ?thesis by (meson closure_trans)
    next
      case right
      then have "(b, x) \<in> closure ?Q" "(a, y) \<in> closure ?Q"
        using eq a b x y sub by blast+
      with xy show ?thesis by (meson closure_trans closure_sym)
    next
      case none
      with eq a b sub show ?thesis by blast
    qed
  next
    assume "(a, b) \<in> closure ?Q"
    then have "(a, b) \<in> (?Q \<union> ?Q\<inverse>)\<^sup>*" by (simp add: closure_def)
    then show "uf_find (uf_union uf x y) a = uf_find (uf_union uf x y) b"
    proof (induction rule: rtrancl_induct)
      case base
      then show ?case by simp
    next
      case (step c d)
      have c: "c \<in> set N"
        using step.hyps(1) Q a closure_stays [of a c ?Q "set N"] by (simp add: closure_def)
      have d: "d \<in> set N" using step.hyps(2) Q c by auto
      have "uf_find (uf_union uf x y) c = uf_find (uf_union uf x y) d"
      proof -
        from step.hyps(2) consider "(c, d) = (x, y)" | "(d, c) = (x, y)"
          | "(c, d) \<in> P \<union> P\<inverse>" by auto
        then show ?thesis
        proof cases
          case 1
          then show ?thesis using fu [OF x] fu [OF y] by auto
        next
          case 2
          then show ?thesis using fu [OF x] fu [OF y] by auto
        next
          case 3
          then have "(c, d) \<in> closure P" unfolding closure_def by blast
          then have "uf_find uf c = uf_find uf d" using eq c d by blast
          then show ?thesis using fu [OF c] fu [OF d] by simp
        qed
      qed
      with step.IH show ?case by simp
    qed
  qed
  moreover have "uf_ok N (uf_union uf x y)" using ok y by (rule uf_union_ok)
  ultimately show ?thesis using Q by (simp add: links_def)
qed

lemma links_unions:
  assumes "links N uf P" "x \<in> set N" "set ns \<subseteq> set N"
  shows "links N (foldl (\<lambda>u n. uf_union u x n) uf ns) (P \<union> {x} \<times> set ns)"
  using assms
proof (induction ns arbitrary: uf P)
  case Nil
  then show ?case by simp
next
  case (Cons n ns)
  from Cons.prems have "links N (uf_union uf x n) (insert (x, n) P)"
    by (intro links_union) auto
  from Cons.IH [OF this] Cons.prems
  have "links N (foldl (\<lambda>u n. uf_union u x n) (uf_union uf x n) ns)
          (insert (x, n) P \<union> {x} \<times> set ns)" by simp
  moreover have "insert (x, n) P \<union> {x} \<times> set ns = P \<union> {x} \<times> set (n # ns)" by auto
  ultimately show ?case by simp
qed


subsection \<open>The sweep\<close>

lemma neighbor_query_ready:
  "index_ready g \<Longrightarrow> neighbor_query threshold m g = Inr (neighbors threshold g m)"
  by (simp add: neighbor_query_def neighbors_def)

lemma neighbors_known: "set (neighbors threshold g m) \<subseteq> set (map mem_id (non_core g))"
  by (auto simp: neighbors_def)

lemma pairs_examined_ready:
  "index_ready g \<Longrightarrow>
   pairs_examined threshold g = sum_list (map (\<lambda>m. length (neighbors threshold g m)) (non_core g))"
  by (simp add: pairs_examined_def neighbor_query_ready)

lemma sweep_links:
  assumes "index_ready g"
    and "set ms \<subseteq> set (non_core g)"
    and "links (map mem_id (non_core g)) uf P"
    and "pairs + sum_list (map (\<lambda>m. length (neighbors threshold g m)) ms) \<le> MAX_PAIRS"
  shows "\<exists>uf'. sweep threshold g ms (uf, pairs) = Inr uf' \<and>
           links (map mem_id (non_core g)) uf'
             (P \<union> (\<Union>m\<in>set ms. {mem_id m} \<times> set (neighbors threshold g m)))"
  using assms(2-4)
proof (induction ms arbitrary: uf pairs P)
  case Nil
  then show ?case by simp
next
  case (Cons m ms)
  let ?N = "map mem_id (non_core g)"
  let ?ns = "neighbors threshold g m"
  let ?uf = "foldl (\<lambda>u n. uf_union u (mem_id m) n) uf ?ns"
  have m: "mem_id m \<in> set ?N" using Cons.prems(1) by auto
  have l: "links ?N ?uf (P \<union> {mem_id m} \<times> set ?ns)"
    using Cons.prems(2) m neighbors_known by (rule links_unions)
  have "set ms \<subseteq> set (non_core g)" using Cons.prems(1) by simp
  moreover have "pairs + length ?ns + sum_list (map (\<lambda>m. length (neighbors threshold g m)) ms)
      \<le> MAX_PAIRS" using Cons.prems(3) by simp
  ultimately obtain uf' where
    s: "sweep threshold g ms (?uf, pairs + length ?ns) = Inr uf'" and
    l': "links ?N uf' (P \<union> {mem_id m} \<times> set ?ns \<union>
           (\<Union>m\<in>set ms. {mem_id m} \<times> set (neighbors threshold g m)))"
    using Cons.IH [OF _ l] by blast
  have "\<not> MAX_PAIRS < pairs" using Cons.prems(3) by simp
  then have "sweep threshold g (m # ms) (uf, pairs) = Inr uf'"
    using s assms(1) by (simp add: neighbor_query_ready)
  moreover have "P \<union> {mem_id m} \<times> set ?ns \<union>
      (\<Union>m\<in>set ms. {mem_id m} \<times> set (neighbors threshold g m)) =
      P \<union> (\<Union>m\<in>set (m # ms). {mem_id m} \<times> set (neighbors threshold g m))" by auto
  ultimately show ?case using l' by simp
qed

lemma similar_neighbors:
  "similar threshold g = (\<Union>m\<in>set (non_core g). {mem_id m} \<times> set (neighbors threshold g m))"
proof (intro set_eqI iffI)
  fix p assume "p \<in> similar threshold g"
  then obtain a b where p: "p = (mem_id a, mem_id b)"
    and a: "a \<in> set (non_core g)" and b: "b \<in> set (non_core g)"
    and ne: "mem_id a \<noteq> mem_id b"
    and s: "threshold \<le> score g (embedding a) (embedding b)"
    unfolding similar_def by blast
  from b ne s have "mem_id b \<in> set (neighbors threshold g a)"
    unfolding neighbors_def by force
  then have "p \<in> {mem_id a} \<times> set (neighbors threshold g a)" using p by simp
  with a show "p \<in> (\<Union>m\<in>set (non_core g). {mem_id m} \<times> set (neighbors threshold g m))"
    by (rule UN_I)
next
  fix p assume "p \<in> (\<Union>m\<in>set (non_core g). {mem_id m} \<times> set (neighbors threshold g m))"
  then obtain a where a: "a \<in> set (non_core g)"
    and "p \<in> {mem_id a} \<times> set (neighbors threshold g a)" by (rule UN_E)
  then obtain i where p: "p = (mem_id a, i)" and i: "i \<in> set (neighbors threshold g a)"
    by auto
  from i obtain b where "i = mem_id b" "b \<in> set (non_core g)" "mem_id b \<noteq> mem_id a"
    "threshold \<le> score g (embedding a) (embedding b)"
    unfolding neighbors_def by auto
  with a p show "p \<in> similar threshold g"
    unfolding similar_def by force
qed

subsection \<open>The components emitted\<close>

lemma component_set:
  assumes l: "links N uf P" and a: "a \<in> set N"
  shows "set (filter (\<lambda>i. uf_find uf i = uf_find uf a) N) = {b. (a, b) \<in> closure P}"
proof -
  from l have P: "P \<subseteq> set N \<times> set N"
    and eq: "\<And>a b. a \<in> set N \<Longrightarrow> b \<in> set N \<Longrightarrow>
               uf_find uf a = uf_find uf b \<longleftrightarrow> (a, b) \<in> closure P"
    by (auto simp: links_def)
  show ?thesis
  proof (intro set_eqI iffI)
    fix b assume "b \<in> set (filter (\<lambda>i. uf_find uf i = uf_find uf a) N)"
    then have "b \<in> set N" "uf_find uf a = uf_find uf b" by auto
    moreover from this have "(uf_find uf a = uf_find uf b) = ((a, b) \<in> closure P)"
      using a by (intro eq)
    ultimately show "b \<in> {b. (a, b) \<in> closure P}" by simp
  next
    fix b assume "b \<in> {b. (a, b) \<in> closure P}"
    then have c: "(a, b) \<in> closure P" by simp
    then have b: "b \<in> set N" using P a by (rule closure_stays)
    have "(uf_find uf a = uf_find uf b) = ((a, b) \<in> closure P)" using a b by (rule eq)
    with c have "uf_find uf b = uf_find uf a" by simp
    with b show "b \<in> set (filter (\<lambda>i. uf_find uf i = uf_find uf a) N)" by simp
  qed
qed

lemma components_emitted:
  assumes l: "links N uf P" and d: "distinct N"
  shows "set ` set (filter (\<lambda>c. 2 \<le> length c) (components_of uf N)) =
           {C. \<exists>a\<in>set N. C = {b. (a, b) \<in> closure P} \<and> 2 \<le> card C}"
proof -
  let ?F = "\<lambda>r. filter (\<lambda>i. uf_find uf i = r) N"
  have len: "length (?F r) = card (set (?F r))" for r
    using d distinct_card [of "?F r"] by simp
  have "set ` set (filter (\<lambda>c. 2 \<le> length c) (components_of uf N)) =
      {C. \<exists>a\<in>set N. C = set (?F (uf_find uf a)) \<and> 2 \<le> card C}"
  proof (intro set_eqI iffI)
    fix C assume "C \<in> set ` set (filter (\<lambda>c. 2 \<le> length c) (components_of uf N))"
    then obtain c where c: "c \<in> set (components_of uf N)" "2 \<le> length c" "C = set c"
      by auto
    from c(1) obtain a where a: "a \<in> set N" "c = ?F (uf_find uf a)"
      unfolding components_of_def by auto
    from c(2) a(2) have "2 \<le> card (set (?F (uf_find uf a)))" using len by simp
    with a c(3) show "C \<in> {C. \<exists>a\<in>set N. C = set (?F (uf_find uf a)) \<and> 2 \<le> card C}"
      by blast
  next
    fix C assume "C \<in> {C. \<exists>a\<in>set N. C = set (?F (uf_find uf a)) \<and> 2 \<le> card C}"
    then obtain a where a: "a \<in> set N" "C = set (?F (uf_find uf a))" "2 \<le> card C"
      by blast
    from a(1) have "?F (uf_find uf a) \<in> set (components_of uf N)"
      unfolding components_of_def by simp
    moreover from a(2,3) have "2 \<le> length (?F (uf_find uf a))" using len by simp
    ultimately have "?F (uf_find uf a) \<in> set (filter (\<lambda>c. 2 \<le> length c) (components_of uf N))"
      by simp
    then show "C \<in> set ` set (filter (\<lambda>c. 2 \<le> length c) (components_of uf N))"
      unfolding a(2) by (rule imageI)
  qed
  also have "\<dots> = {C. \<exists>a\<in>set N. C = {b. (a, b) \<in> closure P} \<and> 2 \<le> card C}"
    by (intro Collect_cong bex_cong refl) (simp only: component_set [OF l])
  finally show ?thesis .
qed

subsection \<open>Clusters and components\<close>

lemmas dedup_defs = findDuplicateClusters_def non_core_def neighbor_query_def MAX_PAIRS_def
  uf_init_def uf_find_def uf_union_def components_of_def Let_def dot_product_def

text \<open>
  C5, as stated, fails once the sweep has examined more than 500 pairs: in the store
  \<open>crowded\<close> the 24 memories \<open>a\<close> to \<open>x\<close> are all similar to each other, the sweep
  stops after 22 of them, and the similar memories \<open>y\<close> and \<open>z\<close> are never visited.
  The one cluster returned is \<open>a\<close> to \<open>x\<close>, although \<open>y\<close> and \<open>z\<close> form a component.
\<close>

lemma crowded_pairs: "pairs_examined (19/20) crowded = 554"
  by (simp add: pairs_examined_def crowded_def crowd_ids_def non_core_def neighbor_query_def
      dot_product_def)

lemma crowded_embedding:
  "m \<in> set (non_core crowded) \<Longrightarrow>
   embedding m = (if mem_id m = ''y'' \<or> mem_id m = ''z'' then [0, 1] else [1, 0])"
  by (auto simp: crowded_def crowd_ids_def non_core_def)

lemma crowded_similar_twins:
  assumes "(c, d) \<in> similar (19/20) crowded"
  shows "(c = ''y'' \<or> c = ''z'') = (d = ''y'' \<or> d = ''z'')"
proof -
  from assms obtain a b where ab: "c = mem_id a" "d = mem_id b"
    "a \<in> set (non_core crowded)" "b \<in> set (non_core crowded)"
    "19/20 \<le> score crowded (embedding a) (embedding b)"
    unfolding similar_def by blast
  have s: "score crowded = dot_product" by (simp add: crowded_def)
  show ?thesis
    using ab(5) unfolding s crowded_embedding [OF ab(3)] crowded_embedding [OF ab(4)] ab(1,2)
    by (auto simp: dot_product_def split: if_splits)
qed

lemma crowded_twins_similar: "(''y'', ''z'') \<in> similar (19/20) crowded"
proof -
  let ?y = "\<lparr>mem_id = ''y'', mem_text = ''twin'', embedding = [0, 1], importance = 1/2,
          category = Fact\<rparr>"
  let ?z = "\<lparr>mem_id = ''z'', mem_text = ''twin'', embedding = [0, 1], importance = 1/2,
          category = Fact\<rparr>"
  have "?y \<in> set (non_core crowded)" "?z \<in> set (non_core crowded)"
    by (simp_all add: crowded_def non_core_def)
  moreover have "19/20 \<le> score crowded (embedding ?y) (embedding ?z)"
    by (simp add: crowded_def dot_product_def)
  moreover have "mem_id ?y \<noteq> mem_id ?z" by simp
  ultimately have "(mem_id ?y, mem_id ?z) \<in> similar (19/20) crowded"
    unfolding similar_def by blast
  then show ?thesis by simp
qed

lemma crowded_twin_component:
  "{b. (''y'', b) \<in> (similar (19/20) crowded \<union> (similar (19/20) crowded)\<inverse>)\<^sup>*} = {''y'', ''z''}"
proof (intro set_eqI iffI)
  fix b assume "b \<in> {b. (''y'', b) \<in> (similar (19/20) crowded \<union> (similar (19/20) crowded)\<inverse>)\<^sup>*}"
  then have "(''y'', b) \<in> (similar (19/20) crowded \<union> (similar (19/20) crowded)\<inverse>)\<^sup>*" by simp
  then have "b = ''y'' \<or> b = ''z''"
  proof (induction rule: rtrancl_induct)
    case base
    then show ?case by simp
  next
    case (step c d)
    from step.hyps(2) have "(c = ''y'' \<or> c = ''z'') = (d = ''y'' \<or> d = ''z'')"
      using crowded_similar_twins [of c d] crowded_similar_twins [of d c] by blast
    with step.IH show ?case by simp
  qed
  then show "b \<in> {''y'', ''z''}" by simp
next
  fix b assume "b \<in> {''y'', ''z''}"
  then consider "b = ''y''" | "b = ''z''" by auto
  then show "b \<in> {b. (''y'', b) \<in> (similar (19/20) crowded \<union> (similar (19/20) crowded)\<inverse>)\<^sup>*}"
  proof cases
    case 1
    then show ?thesis by simp
  next
    case 2
    then show ?thesis using crowded_twins_similar by auto
  qed
qed

text \<open>
  C5, counterexample: the result on \<open>crowded\<close>, and the component it leaves out.
\<close>

theorem duplicate_clusters_cap_counterexample:
  "findDuplicateClusters (19/20) crowded =
     Inr [\<lparr>memoryIds =
            [''a'', ''b'', ''c'', ''d'', ''e'', ''f'', ''g'', ''h'', ''i'', ''j'', ''k'', ''l'',
             ''m'', ''n'', ''o'', ''p'', ''q'', ''r'', ''s'', ''t'', ''u'', ''v'', ''w'', ''x'']\<rparr>] \<and>
   {''y'', ''z''} \<in> duplicate_components (19/20) crowded"
proof -
  have "findDuplicateClusters (19/20) crowded =
     Inr [\<lparr>memoryIds =
            [''a'', ''b'', ''c'', ''d'', ''e'', ''f'', ''g'', ''h'', ''i'', ''j'', ''k'', ''l'',
             ''m'', ''n'', ''o'', ''p'', ''q'', ''r'', ''s'', ''t'', ''u'', ''v'', ''w'', ''x'']\<rparr>]"
    by (simp add: crowded_def crowd_ids_def dedup_defs)
  moreover have "{''y'', ''z''} \<in> duplicate_components (19/20) crowded"
  proof -
    have "\<exists>a\<in>set (map mem_id (non_core crowded)).
            {''y'', ''z''} =
              {b. (a, b) \<in> (similar (19/20) crowded \<union> (similar (19/20) crowded)\<inverse>)\<^sup>*} \<and>
            2 \<le> card {''y'', ''z''}"
    proof (intro bexI conjI)
      show "{''y'', ''z''} =
          {b. (''y'', b) \<in> (similar (19/20) crowded \<union> (similar (19/20) crowded)\<inverse>)\<^sup>*}"
        by (rule crowded_twin_component [symmetric])
      show "2 \<le> card {''y'', ''z''}" by simp
      show "''y'' \<in> set (map mem_id (non_core crowded))"
        by (simp add: crowded_def non_core_def)
    qed
    then show ?thesis unfolding duplicate_components_def by (rule CollectI)
  qed
  ultimately show ?thesis by (rule conjI)
qed

text \<open>
  C5, amended. When the vector index is ready, the ids of the memories outside the
  core category are distinct and a full sweep examines at most 500 pairs,
  \<^verbatim>\<open>findDuplicateClusters\<close> returns exactly the duplicate components: the classes with
  two or more members of the closure of the similarity links. Without any link
  (no neighbour at the threshold, an empty store, a single memory) it returns no
  cluster.
\<close>

theorem duplicate_clusters_within_cap:
  assumes ready: "index_ready g"
    and ids: "distinct (map mem_id (non_core g))"
    and cap: "pairs_examined threshold g \<le> 500"
  shows "\<exists>cs. findDuplicateClusters threshold g = Inr cs \<and>
           set (map (\<lambda>c. set (memoryIds c)) cs) = duplicate_components threshold g \<and>
           (similar threshold g = {} \<longrightarrow> cs = [])"
proof -
  let ?N = "map mem_id (non_core g)"
  have "0 + sum_list (map (\<lambda>m. length (neighbors threshold g m)) (non_core g)) \<le> MAX_PAIRS"
    using cap ready by (simp add: pairs_examined_ready MAX_PAIRS_def)
  with sweep_links [OF ready subset_refl links_init]
  obtain uf where s: "sweep threshold g (non_core g) (uf_init ?N, 0) = Inr uf"
    and l: "links ?N uf ({} \<union> (\<Union>m\<in>set (non_core g). {mem_id m} \<times> set (neighbors threshold g m)))"
    by blast
  from l have l': "links ?N uf (similar threshold g)" by (simp add: similar_neighbors)
  let ?cs = "map (\<lambda>c. \<lparr>memoryIds = c\<rparr>) (filter (\<lambda>c. 2 \<le> length c) (components_of uf ?N))"
  have r: "findDuplicateClusters threshold g = Inr ?cs"
    using s by (simp add: findDuplicateClusters_def Let_def)
  have "set (map (\<lambda>c. set (memoryIds c)) ?cs) =
      set ` set (filter (\<lambda>c. 2 \<le> length c) (components_of uf ?N))"
    by (simp add: image_image)
  also have "\<dots> = {C. \<exists>a\<in>set ?N. C = {b. (a, b) \<in> closure (similar threshold g)} \<and> 2 \<le> card C}"
    using l' ids by (rule components_emitted)
  also have "\<dots> = duplicate_components threshold g"
    by (simp add: duplicate_components_def closure_def)
  finally have c: "set (map (\<lambda>c. set (memoryIds c)) ?cs) = duplicate_components threshold g" .
  have "?cs = []" if "similar threshold g = {}"
  proof -
    from that have "duplicate_components threshold g = {}"
      by (auto simp: duplicate_components_def)
    with c show ?thesis by simp
  qed
  with r c show ?thesis by blast
qed

lemma trio_clusters:
  "findDuplicateClusters (3/4) trio = Inr [\<lparr>memoryIds = [''m1'', ''m2'', ''m3'']\<rparr>]"
  by (simp add: trio_def dedup_defs)

lemma trio_pairs: "pairs_examined (3/4) trio = 4"
  by (simp add: pairs_examined_def trio_def non_core_def neighbor_query_def dot_product_def)

lemma trio_links:
  "dot_product [1, 0] [4/5, 3/5] = 4/5" "dot_product [4/5, 3/5] [7/25, 24/25] = 4/5"
  "dot_product [1, 0] [7/25, 24/25] = 7/25"
  by (simp_all add: dot_product_def)

theorem duplicate_clusters_within_cap_witness:
  "index_ready trio \<and> pairs_examined (3/4) trio \<le> 500 \<and>
   findDuplicateClusters (3/4) trio = Inr [\<lparr>memoryIds = [''m1'', ''m2'', ''m3'']\<rparr>] \<and>
   duplicate_components (3/4) trio = {{''m1'', ''m2'', ''m3''}}"
proof -
  have r: "index_ready trio" by (simp add: trio_def)
  have d: "distinct (map mem_id (non_core trio))" by (simp add: trio_def non_core_def)
  have p: "pairs_examined (3/4) trio \<le> 500" by (simp add: trio_pairs)
  from duplicate_clusters_within_cap [OF r d p] trio_clusters
  have "duplicate_components (3/4) trio = {{''m1'', ''m2'', ''m3''}}" by auto
  with r p trio_clusters show ?thesis by simp
qed

end
